theory Spec2Isabelle
  imports Complex_Main "HOL-Library.Sublist" "HOL-Library.Multiset" "HOL-Library.Product_Lexorder"
begin

section \<open>JavaScript strings\<close>

text \<open>
  A JavaScript string is a sequence of UTF-16 code units, and \<open>length\<close>, \<open>slice\<close>,
  \<open>lastIndexOf\<close> and the regular expressions of the sources (none has the \<open>u\<close> flag)
  all count code units. A code unit is modelled by its number, so that the euro sign
  (8364) of \<open>normalizeText\<close> is a single element, as it is in the program.
  \<open>js\<close> turns an Isabelle literal into such a sequence.
\<close>

type_synonym jschar = nat
type_synonym jsstring = "jschar list"

definition js :: "string \<Rightarrow> jsstring" where
  "js s = map of_char s"

definition chDot :: jschar where "chDot = 46"
definition chNewline :: jschar where "chNewline = 10"
definition chSpace :: jschar where "chSpace = 32"
definition chComma :: jschar where "chComma = 44"
definition chEuro :: jschar where "chEuro = 8364"

text \<open>
  The characters that \<open>\s\<close> matches and that \<open>trim\<close> removes: ECMAScript's WhiteSpace
  and LineTerminator code points.
\<close>

definition isSpace :: "jschar \<Rightarrow> bool" where
  "isSpace c \<longleftrightarrow>
     (9 \<le> c \<and> c \<le> 13) \<or> c = 32 \<or> c = 160 \<or> c = 5760 \<or> (8192 \<le> c \<and> c \<le> 8202) \<or>
     c = 8232 \<or> c = 8233 \<or> c = 8239 \<or> c = 8287 \<or> c = 12288 \<or> c = 65279"

definition isDigit :: "jschar \<Rightarrow> bool" where
  "isDigit c \<longleftrightarrow> 48 \<le> c \<and> c \<le> 57"

definition isUpper :: "jschar \<Rightarrow> bool" where
  "isUpper c \<longleftrightarrow> 65 \<le> c \<and> c \<le> 90"

definition isLower :: "jschar \<Rightarrow> bool" where
  "isLower c \<longleftrightarrow> 97 \<le> c \<and> c \<le> 122"

text \<open>\<open>\w\<close> is \<open>[A-Za-z0-9_]\<close>.\<close>

definition isWord :: "jschar \<Rightarrow> bool" where
  "isWord c \<longleftrightarrow> isUpper c \<or> isLower c \<or> isDigit c \<or> c = 95"

text \<open>\<open>String.prototype.trim\<close>.\<close>

definition trim :: "jsstring \<Rightarrow> jsstring" where
  "trim s = rev (dropWhile isSpace (rev (dropWhile isSpace s)))"

text \<open>
  \<open>String.prototype.slice(start, end)\<close>: a negative index counts from the end of the
  string, both indices are clamped to the string, and an empty range gives the empty
  string.
\<close>

definition sliceIndex :: "nat \<Rightarrow> int \<Rightarrow> nat" where
  "sliceIndex len i = (if i < 0 then nat (max (int len + i) 0) else nat (min i (int len)))"

definition slice :: "'a list \<Rightarrow> int \<Rightarrow> int \<Rightarrow> 'a list" where
  "slice s start end =
     (let from = sliceIndex (length s) start;
          to = sliceIndex (length s) end
      in if from \<ge> to then [] else take (to - from) (drop from s))"

text \<open>
  \<open>String.prototype.lastIndexOf(c, position)\<close> for a one-character search string: the
  position is clamped between 0 and \<open>length - 1\<close>, the string is scanned downward from
  there, and the answer is \<open>-1\<close> when the character is not found.
\<close>

fun lastIndexFrom :: "jsstring \<Rightarrow> jschar \<Rightarrow> nat \<Rightarrow> int" where
  "lastIndexFrom s c 0 = (if s \<noteq> [] \<and> s ! 0 = c then 0 else -1)"
| "lastIndexFrom s c (Suc i) =
     (if Suc i < length s \<and> s ! Suc i = c then int (Suc i) else lastIndexFrom s c i)"

definition lastIndexOf :: "jsstring \<Rightarrow> jschar \<Rightarrow> int \<Rightarrow> int" where
  "lastIndexOf s c position =
     (if s = [] then -1
      else lastIndexFrom s c (nat (min (max position 0) (int (length s) - 1))))"

text \<open>\<open>String.prototype.includes\<close>: the argument occurs as a contiguous substring.\<close>

fun str_includes :: "jsstring \<Rightarrow> jsstring \<Rightarrow> bool" where
  "str_includes [] needle = (needle = [])"
| "str_includes (c # s) needle = (prefix needle (c # s) \<or> str_includes s needle)"

text \<open>\<open>Array.prototype.join\<close> on an array of strings.\<close>

fun join :: "jsstring \<Rightarrow> jsstring list \<Rightarrow> jsstring" where
  "join sep [] = []"
| "join sep [x] = x"
| "join sep (x # y # ys) = x @ sep @ join sep (y # ys)"

section \<open>document-processor.ts: chunkText\<close>

text \<open>
  \<open>chunkText(text, maxChars = 800, overlap = 200)\<close>. The two numeric parameters are taken
  as integers (the callers pass none, so the defaults apply); they may be negative, and
  then \<open>slice\<close> reads the window end from the end of the string, as the program does.

  \<open>chunkEnd\<close> is the first half of the loop body: the candidate end
  \<open>Math.min(start + maxChars, text.length)\<close>, moved to one past the last \<open>'.'\<close> or line
  break found at or before it when that break point is greater than
  \<open>start + maxChars * 0.5\<close>.
\<close>

definition chunkEnd :: "jsstring \<Rightarrow> int \<Rightarrow> int \<Rightarrow> int" where
  "chunkEnd text maxChars start =
     (let end = min (start + maxChars) (int (length text))
      in if end < int (length text) then
           (let sentenceEnd = lastIndexOf text chDot end;
                paragraphEnd = lastIndexOf text chNewline end;
                breakPoint = max sentenceEnd paragraphEnd
            in if (of_int breakPoint :: real) > of_int start + of_int maxChars * 0.5
               then breakPoint + 1 else end)
         else end)"

text \<open>The second half: \<open>start = Math.max(start + 1, end - overlap)\<close>.\<close>

definition nextStart :: "jsstring \<Rightarrow> int \<Rightarrow> int \<Rightarrow> int \<Rightarrow> int" where
  "nextStart text maxChars overlap start =
     max (start + 1) (chunkEnd text maxChars start - overlap)"

text \<open>
  The \<open>while (start < text.length)\<close> loop. It is defined without any appeal to its
  termination: a run that never left the loop would be the value \<open>None\<close>.
\<close>

partial_function (option) chunkLoop ::
  "jsstring \<Rightarrow> int \<Rightarrow> int \<Rightarrow> int \<Rightarrow> jsstring list \<Rightarrow> jsstring list option" where
  "chunkLoop text maxChars overlap start chunks =
     (if start < int (length text) then
        chunkLoop text maxChars overlap (nextStart text maxChars overlap start)
          (chunks @ [trim (slice text start (chunkEnd text maxChars start))])
      else Some chunks)"

definition chunkText :: "jsstring \<Rightarrow> int \<Rightarrow> int \<Rightarrow> jsstring list option" where
  "chunkText text maxChars overlap =
     (if int (length text) \<le> maxChars then Some [text]
      else map_option (filter (\<lambda>chunk. length chunk > 50)) (chunkLoop text maxChars overlap 0 []))"

section \<open>Regular expressions\<close>

text \<open>
  The regular expressions of the sources, as syntax trees, and a backtracking matcher
  with ECMAScript's priorities: an alternative tries its left branch first, a quantifier
  is greedy, and a match that fails later on is retried with the next choice. \<open>Grp k\<close>
  is the capturing group number \<open>k\<close>; a group written \<open>(?:...)\<close> in the source is no
  node at all.
\<close>

datatype regex =
    Chr jschar
  | Cls "jschar \<Rightarrow> bool"
  | Seq regex regex
  | Alt regex regex
  | Star regex
  | Opt regex
  | Grp nat regex
  | Bol
  | Emp

text \<open>\<open>r+\<close> is \<open>rr*\<close>.\<close>

definition Plus :: "regex \<Rightarrow> regex" where
  "Plus r = Seq r (Star r)"

fun seqs :: "regex list \<Rightarrow> regex" where
  "seqs [] = Emp"
| "seqs [r] = r"
| "seqs (r # rs) = Seq r (seqs rs)"

fun alts :: "regex list \<Rightarrow> regex" where
  "alts [] = Emp"
| "alts [r] = r"
| "alts (r # rs) = Alt r (alts rs)"

text \<open>A literal word of the pattern, character by character.\<close>

definition lit :: "string \<Rightarrow> regex" where
  "lit w = seqs (map Chr (js w))"

type_synonym captures = "nat \<Rightarrow> jsstring option"

text \<open>
  With the \<open>i\<close> flag two characters match when their canonical forms are equal. The
  patterns with that flag contain only ASCII letters as literals, and a character
  outside ASCII never canonicalises to an ASCII one, so upper-casing \<open>a\<close>..\<open>z\<close> is all
  that matters. The classes used under the flag (\<open>\s\<close>, \<open>\d\<close>) contain no cased
  character.
\<close>

definition canon :: "jschar \<Rightarrow> jschar" where
  "canon c = (if isLower c then c - 32 else c)"

definition chrMatches :: "bool \<Rightarrow> jschar \<Rightarrow> jschar \<Rightarrow> bool" where
  "chrMatches ignoreCase c x = (if ignoreCase then canon x = canon c else x = c)"

text \<open>
  \<open>ms ignoreCase n r (s, caps)\<close> lists, best first, every way in which \<open>r\<close> matches a
  prefix of the remaining input \<open>s\<close>: each is the input left over and the captures.
  \<open>n\<close> is the length of the whole subject string, so that \<open>^\<close> (no \<open>m\<close> flag) holds
  exactly when nothing has been consumed before. An iteration of \<open>*\<close> that consumes
  nothing is rejected, as in ECMAScript's RepeatMatcher.
\<close>

function ms :: "bool \<Rightarrow> nat \<Rightarrow> regex \<Rightarrow> jsstring \<times> captures \<Rightarrow> (jsstring \<times> captures) list" where
  "ms ic n (Chr c) (s, caps) =
     (case s of [] \<Rightarrow> [] | x # r \<Rightarrow> if chrMatches ic c x then [(r, caps)] else [])"
| "ms ic n (Cls p) (s, caps) =
     (case s of [] \<Rightarrow> [] | x # r \<Rightarrow> if p x then [(r, caps)] else [])"
| "ms ic n (Seq a b) (s, caps) = concat (map (ms ic n b) (ms ic n a (s, caps)))"
| "ms ic n (Alt a b) (s, caps) = ms ic n a (s, caps) @ ms ic n b (s, caps)"
| "ms ic n (Star a) (s, caps) =
     concat (map (\<lambda>st. if length (fst st) < length s then ms ic n (Star a) st else [])
                 (ms ic n a (s, caps))) @ [(s, caps)]"
| "ms ic n (Opt a) (s, caps) = ms ic n a (s, caps) @ [(s, caps)]"
| "ms ic n (Grp k a) (s, caps) =
     map (\<lambda>st. (fst st, (snd st)(k \<mapsto> take (length s - length (fst st)) s)))
         (ms ic n a (s, caps))"
| "ms ic n Bol (s, caps) = (if length s = n then [(s, caps)] else [])"
| "ms ic n Emp (s, caps) = [(s, caps)]"
  by pat_completeness auto
termination
  by (relation "inv_image (less_than <*lex*> less_than)
                  (\<lambda>(ic, n, r, st). (size r, length (fst st)))") auto

declare ms.simps(5) [simp del]

text \<open>The best match of \<open>r\<close> that starts exactly at the current position, if any.\<close>

definition matchAt :: "bool \<Rightarrow> nat \<Rightarrow> regex \<Rightarrow> jsstring \<Rightarrow> (jsstring \<times> captures) option" where
  "matchAt ic n r s = (case ms ic n r (s, Map.empty) of [] \<Rightarrow> None | st # _ \<Rightarrow> Some st)"

text \<open>The text of a capturing group; a group that did not take part is the empty string
  in a replacement pattern such as \<open>'$1$2'\<close>.\<close>

definition cap :: "captures \<Rightarrow> nat \<Rightarrow> jsstring" where
  "cap caps k = (case caps k of None \<Rightarrow> [] | Some t \<Rightarrow> t)"

text \<open>
  \<open>String.prototype.replace\<close> with a regular expression that has the \<open>g\<close> flag: the
  matches are found from left to right, each search starting where the previous match
  ended, and each is replaced by what the callback \<open>f\<close> returns for the matched text
  and the captures. After an empty match the next character is copied and the search
  goes on behind it.
\<close>

function replaceAllFrom ::
  "bool \<Rightarrow> nat \<Rightarrow> regex \<Rightarrow> (jsstring \<Rightarrow> captures \<Rightarrow> jsstring) \<Rightarrow> jsstring \<Rightarrow> jsstring" where
  "replaceAllFrom ic n r f s =
     (case matchAt ic n r s of
        Some (rest, caps) \<Rightarrow>
          if length rest < length s
          then f (take (length s - length rest) s) caps @ replaceAllFrom ic n r f rest
          else f [] caps @ (case s of [] \<Rightarrow> [] | c # s' \<Rightarrow> c # replaceAllFrom ic n r f s')
      | None \<Rightarrow> (case s of [] \<Rightarrow> [] | c # s' \<Rightarrow> c # replaceAllFrom ic n r f s'))"
  by pat_completeness auto
termination
  by (relation "measure (\<lambda>(ic, n, r, f, s). length s)") auto

declare replaceAllFrom.simps [simp del]

definition replaceAll ::
  "bool \<Rightarrow> regex \<Rightarrow> (jsstring \<Rightarrow> captures \<Rightarrow> jsstring) \<Rightarrow> jsstring \<Rightarrow> jsstring" where
  "replaceAll ic r f s = replaceAllFrom ic (length s) r f s"

text \<open>The same without the \<open>g\<close> flag: only the leftmost match is replaced.\<close>

fun replaceFirstFrom ::
  "bool \<Rightarrow> nat \<Rightarrow> regex \<Rightarrow> (jsstring \<Rightarrow> captures \<Rightarrow> jsstring) \<Rightarrow> jsstring \<Rightarrow> jsstring" where
  "replaceFirstFrom ic n r f [] =
     (case matchAt ic n r [] of Some (rest, caps) \<Rightarrow> f [] caps | None \<Rightarrow> [])"
| "replaceFirstFrom ic n r f (c # s) =
     (case matchAt ic n r (c # s) of
        Some (rest, caps) \<Rightarrow> f (take (length (c # s) - length rest) (c # s)) caps @ rest
      | None \<Rightarrow> c # replaceFirstFrom ic n r f s)"

definition replaceFirst ::
  "bool \<Rightarrow> regex \<Rightarrow> (jsstring \<Rightarrow> captures \<Rightarrow> jsstring) \<Rightarrow> jsstring \<Rightarrow> jsstring" where
  "replaceFirst ic r f s = replaceFirstFrom ic (length s) r f s"

text \<open>
  \<open>String.prototype.match\<close> with a regular expression without the \<open>g\<close> flag: the
  leftmost match, as its text and its captures, or nothing (\<open>null\<close>).
\<close>

fun execFrom :: "bool \<Rightarrow> nat \<Rightarrow> regex \<Rightarrow> jsstring \<Rightarrow> (jsstring \<times> captures) option" where
  "execFrom ic n r [] =
     (case matchAt ic n r [] of Some (rest, caps) \<Rightarrow> Some ([], caps) | None \<Rightarrow> None)"
| "execFrom ic n r (c # s) =
     (case matchAt ic n r (c # s) of
        Some (rest, caps) \<Rightarrow> Some (take (length (c # s) - length rest) (c # s), caps)
      | None \<Rightarrow> execFrom ic n r s)"

definition match :: "bool \<Rightarrow> regex \<Rightarrow> jsstring \<Rightarrow> (jsstring \<times> captures) option" where
  "match ic r s = execFrom ic (length s) r s"

section \<open>document-processor.ts: normalizeText\<close>

text \<open>Decimal numerals: \<open>parseInt\<close> on a string of digits, and a number in a template
  string. Both are exact on the naturals (the program's doubles are exact below
  \<open>2^53\<close>).\<close>

definition parseInt :: "jsstring \<Rightarrow> nat" where
  "parseInt ds = foldl (\<lambda>a c. a * 10 + (c - 48)) 0 ds"

fun showNat :: "nat \<Rightarrow> jsstring" where
  "showNat n = (if n < 10 then [48 + n] else showNat (n div 10) @ [48 + n mod 10])"

declare showNat.simps [simp del]

text \<open>\<open>String.prototype.toLowerCase\<close>, on the ASCII letters (other characters are left
  as they are).\<close>

definition toLowerCase :: "jsstring \<Rightarrow> jsstring" where
  "toLowerCase s = map (\<lambda>c. if isUpper c then c + 32 else c) s"

text \<open>The seven patterns of \<open>normalizeText\<close>, in the order of the source.\<close>

definition reHyphen :: regex where
  \<comment> \<open>\<open>/(\w+)-\s*\n\s*(\w+)/g\<close>\<close>
  "reHyphen = seqs [Grp 1 (Plus (Cls isWord)), Chr 45, Star (Cls isSpace), Chr chNewline,
                    Star (Cls isSpace), Grp 2 (Plus (Cls isWord))]"

definition reSpaces :: regex where
  \<comment> \<open>\<open>/\s+/g\<close>\<close>
  "reSpaces = Plus (Cls isSpace)"

definition reBreaks :: regex where
  \<comment> \<open>\<open>/\n\s*\n\s*\n/g\<close>\<close>
  "reBreaks = seqs [Chr chNewline, Star (Cls isSpace), Chr chNewline, Star (Cls isSpace),
                    Chr chNewline]"

definition reUnits :: regex where
  \<comment> \<open>\<open>/(\d+),(\d+)\s*(k|K)\s*(tCO2|CO2|tonnes?)/gi\<close>\<close>
  "reUnits = seqs [Grp 1 (Plus (Cls isDigit)), Chr chComma, Grp 2 (Plus (Cls isDigit)),
                   Star (Cls isSpace), Grp 3 (Alt (lit ''k'') (lit ''K'')), Star (Cls isSpace),
                   Grp 4 (alts [lit ''tCO2'', lit ''CO2'', Seq (lit ''tonne'') (Opt (lit ''s''))])]"

definition rePercent :: regex where
  \<comment> \<open>\<open>/(\d+(?:\.\d+)?)\s*%/g\<close>\<close>
  "rePercent = seqs [Grp 1 (Seq (Plus (Cls isDigit)) (Opt (Seq (Chr chDot) (Plus (Cls isDigit))))),
                     Star (Cls isSpace), Chr 37]"

text \<open>\<open>\d+(?:,\d+)*(?:\.\d+)?\<close>, the number of the two currency patterns and of
  \<open>parseMetricAnswer\<close>.\<close>

definition reNumber :: regex where
  "reNumber = seqs [Plus (Cls isDigit), Star (Seq (Chr chComma) (Plus (Cls isDigit))),
                    Opt (Seq (Chr chDot) (Plus (Cls isDigit)))]"

definition reEuroBefore :: regex where
  \<comment> \<open>\<open>/\<euro>\s*(\d+(?:,\d+)*(?:\.\d+)?)/g\<close>, with the euro sign in front\<close>
  "reEuroBefore = seqs [Chr chEuro, Star (Cls isSpace), Grp 1 reNumber]"

definition reEuroAfter :: regex where
  \<comment> \<open>\<open>/(\d+(?:,\d+)*(?:\.\d+)?)\s*\<euro>/g\<close>, with the euro sign behind\<close>
  "reEuroAfter = seqs [Grp 1 reNumber, Star (Cls isSpace), Chr chEuro]"

text \<open>The callback of the unit pattern: \<open>parseInt(p1) * 1000 + parseInt(p2)\<close>, a space,
  and the unit, where \<open>tCO2\<close> in any case becomes \<open>tCO2e\<close>.\<close>

definition unitReplacement :: "jsstring \<Rightarrow> captures \<Rightarrow> jsstring" where
  "unitReplacement m caps =
     (let v = parseInt (cap caps 1) * 1000 + parseInt (cap caps 2);
          unit = cap caps 4
      in showNat v @ [chSpace] @ (if toLowerCase unit = js ''tco2'' then js ''tCO2e'' else unit))"

definition normalizeText :: "jsstring \<Rightarrow> jsstring" where
  "normalizeText text =
     (let t1 = replaceAll False reHyphen (\<lambda>m caps. cap caps 1 @ cap caps 2) text;
          t2 = replaceAll False reSpaces (\<lambda>m caps. [chSpace]) t1;
          t3 = replaceAll False reBreaks (\<lambda>m caps. [chNewline, chNewline]) t2;
          t4 = replaceAll True reUnits unitReplacement t3;
          t5 = replaceAll False rePercent (\<lambda>m caps. cap caps 1 @ [37]) t4;
          t6 = replaceAll False reEuroBefore (\<lambda>m caps. [chEuro] @ cap caps 1) t5;
          t7 = replaceAll False reEuroAfter (\<lambda>m caps. [chEuro] @ cap caps 1) t6
      in trim t7)"

section \<open>JavaScript numbers\<close>

text \<open>
  A JavaScript number is an IEEE 754 binary64 value: a finite number, an infinity, or
  NaN. The finite values are the reals \<open>k * 2 ^ q\<close> with \<open>\<bar>k\<bar> < 2 ^ 53\<close> and
  \<open>-1074 \<le> q \<le> 971\<close>. The two zeros are one value here: this program never observes
  the sign of a zero (its only divisor is a product of two square roots of sums of
  squares, which is never \<open>-0\<close>, and a comparator result of \<open>-0\<close> is a tie as \<open>+0\<close> is).
\<close>

datatype jsnum = Fin real | PosInf | NegInf | NaN

text \<open>
  Every arithmetic operation returns the exact result rounded to the nearest binary64
  value, the one with the even significand at a tie. \<open>ulpExp x\<close> is the exponent \<open>q\<close> of
  the spacing \<open>2 ^ q\<close> of the binary64 values around \<open>x\<close> (53 significant bits, and
  \<open>-1074\<close> throughout the subnormal range); \<open>roundEven\<close> rounds a real to the nearest
  integer, ties to even; a rounded magnitude above the largest finite value
  \<open>(2 ^ 53 - 1) * 2 ^ 971\<close> is an infinity, and a result that rounds to zero underflows.
\<close>

definition ulpExp :: "real \<Rightarrow> int" where
  "ulpExp x = max (\<lfloor>log 2 \<bar>x\<bar>\<rfloor> - 52) (- 1074)"

definition roundEven :: "real \<Rightarrow> int" where
  "roundEven x =
     (let f = \<lfloor>x\<rfloor>; d = x - of_int f
      in if d < 1 / 2 then f else if d > 1 / 2 then f + 1 else if even f then f else f + 1)"

definition maxDouble :: real where
  "maxDouble = (2 ^ 53 - 1) * 2 ^ 971"

definition round64 :: "real \<Rightarrow> jsnum" where
  "round64 x =
     (if x = 0 then Fin 0
      else let q = ulpExp x; r = of_int (roundEven (x / 2 powi q)) * 2 powi q
           in if r > maxDouble then PosInf else if r < - maxDouble then NegInf else Fin r)"

definition signedInf :: "bool \<Rightarrow> jsnum" where
  "signedInf positive = (if positive then PosInf else NegInf)"

text \<open>\<open>x + y\<close>, \<open>x - y\<close>, \<open>x * y\<close>, \<open>x / y\<close> and \<open>Math.sqrt(x)\<close>.\<close>

fun jsAdd :: "jsnum \<Rightarrow> jsnum \<Rightarrow> jsnum" where
  "jsAdd (Fin x) (Fin y) = round64 (x + y)"
| "jsAdd NaN y = NaN"
| "jsAdd x NaN = NaN"
| "jsAdd PosInf NegInf = NaN"
| "jsAdd NegInf PosInf = NaN"
| "jsAdd PosInf y = PosInf"
| "jsAdd NegInf y = NegInf"
| "jsAdd (Fin x) PosInf = PosInf"
| "jsAdd (Fin x) NegInf = NegInf"

fun jsSub :: "jsnum \<Rightarrow> jsnum \<Rightarrow> jsnum" where
  "jsSub (Fin x) (Fin y) = round64 (x - y)"
| "jsSub NaN y = NaN"
| "jsSub x NaN = NaN"
| "jsSub PosInf PosInf = NaN"
| "jsSub NegInf NegInf = NaN"
| "jsSub PosInf y = PosInf"
| "jsSub NegInf y = NegInf"
| "jsSub (Fin x) PosInf = NegInf"
| "jsSub (Fin x) NegInf = PosInf"

fun jsMul :: "jsnum \<Rightarrow> jsnum \<Rightarrow> jsnum" where
  "jsMul (Fin x) (Fin y) = round64 (x * y)"
| "jsMul NaN y = NaN"
| "jsMul x NaN = NaN"
| "jsMul (Fin x) PosInf = (if x = 0 then NaN else signedInf (x > 0))"
| "jsMul (Fin x) NegInf = (if x = 0 then NaN else signedInf (x < 0))"
| "jsMul PosInf (Fin y) = (if y = 0 then NaN else signedInf (y > 0))"
| "jsMul NegInf (Fin y) = (if y = 0 then NaN else signedInf (y < 0))"
| "jsMul PosInf PosInf = PosInf"
| "jsMul PosInf NegInf = NegInf"
| "jsMul NegInf PosInf = NegInf"
| "jsMul NegInf NegInf = PosInf"

text \<open>A zero divisor is \<open>+0\<close>: the quotient has the sign of the dividend.\<close>

fun jsDiv :: "jsnum \<Rightarrow> jsnum \<Rightarrow> jsnum" where
  "jsDiv (Fin x) (Fin y) =
     (if y = 0 then (if x = 0 then NaN else signedInf (x > 0)) else round64 (x / y))"
| "jsDiv NaN y = NaN"
| "jsDiv x NaN = NaN"
| "jsDiv (Fin x) PosInf = Fin 0"
| "jsDiv (Fin x) NegInf = Fin 0"
| "jsDiv PosInf (Fin y) = signedInf (y \<ge> 0)"
| "jsDiv NegInf (Fin y) = signedInf (y < 0)"
| "jsDiv PosInf y = NaN"
| "jsDiv NegInf y = NaN"

fun jsSqrt :: "jsnum \<Rightarrow> jsnum" where
  "jsSqrt (Fin x) = (if x < 0 then NaN else round64 (sqrt x))"
| "jsSqrt PosInf = PosInf"
| "jsSqrt NegInf = NaN"
| "jsSqrt NaN = NaN"

section \<open>ai-processor.ts: data\<close>

text \<open>
  The interfaces of the two modules as records; an optional field is an \<open>option\<close>.
  Field names carry a prefix where the source's name is taken in HOL (\<open>id\<close>, \<open>text\<close>,
  \<open>value\<close>) or is used by two interfaces.
\<close>

record DocumentChunk =
  dc_id :: jsstring
  dc_page :: "int option"
  dc_startChar :: "int option"
  dc_endChar :: "int option"
  dc_text :: jsstring
  dc_source :: jsstring

record EmbeddingResult =
  embedding :: "jsnum list"
  er_text :: jsstring
  chunkId :: jsstring

text \<open>\<open>findRelevantChunks\<close> returns its entries with one more field, \<open>similarity\<close>.\<close>

record ScoredChunk = EmbeddingResult +
  similarity :: jsnum

text \<open>
  \<open>ESRSMetric\<close> is declared in \<open>esrs-metrics.ts\<close>, which is not among the sources; these
  are the fields that \<open>ai-processor.ts\<close> reads. The catalog \<open>ESRS_METRICS\<close> of that
  module is a parameter of \<open>extractAllMetrics\<close> below.
\<close>

record ESRSMetric =
  m_id :: jsstring
  m_label :: jsstring
  m_keywords :: "jsstring list"
  m_description :: jsstring
  m_unit :: "jsstring option"
  m_priority :: int

record MetricExtraction =
  metricId :: jsstring
  x_value :: "jsstring option"
  units :: "jsstring option"
  confidence :: real
  evidenceChunk :: "DocumentChunk option"
  evidenceSpan :: "jsstring option"
  isModelled :: bool
  explanation :: "jsstring option"

record ExtractionResult =
  extractions :: "MetricExtraction list"
  processingTime :: int
  totalChunks :: nat

text \<open>What a \<open>throw\<close> carries: an \<open>Error\<close> with its message, or any other value.\<close>

datatype error = Error jsstring | Thrown

text \<open>\<open>error instanceof Error ? error.message : 'Unknown error'\<close>\<close>

fun errorMessage :: "error \<Rightarrow> jsstring" where
  "errorMessage (Error msg) = msg"
| "errorMessage Thrown = js ''Unknown error''"

section \<open>ai-processor.ts: the model manager\<close>

text \<open>
  The two models are outside the program. \<open>env\<close> says what they do in a run: whether
  each \<open>pipeline(...)\<close> call of \<open>initialize\<close> resolves or throws, what the embedding
  model returns for a text (\<open>Array.from(result.data)\<close>, or a throw), and what the
  question-answering model returns for a question and a context.
\<close>

record qa_raw =
  raw_answer :: "jsstring option"
  raw_text :: "jsstring option"
  raw_score :: "real option"
  raw_confidence :: "real option"
  raw_start :: "int option"
  raw_end :: "int option"

datatype qa_output = Single qa_raw | Many "qa_raw list"

record env =
  loadEmbeddingModel :: "error option"
  loadQAModel :: "error option"
  runEmbeddingModel :: "jsstring \<Rightarrow> error + jsnum list"
  runQAModel :: "jsstring \<Rightarrow> jsstring \<Rightarrow> error + qa_output"

text \<open>The fields of \<open>AIModelManager\<close>; a model field is \<open>True\<close> when it is not \<open>null\<close>.\<close>

record manager =
  embeddingModel :: bool
  qaModel :: bool
  isInitialized :: bool

definition newManager :: manager where
  "newManager = \<lparr>embeddingModel = False, qaModel = False, isInitialized = False\<rparr>"

text \<open>
  A method that may throw and may change the manager returns the outcome (\<open>Inl\<close> the
  thrown value) together with the manager afterwards.
\<close>

definition initialize :: "env \<Rightarrow> manager \<Rightarrow> (error + unit) \<times> manager" where
  "initialize ev m =
     (if isInitialized m then (Inr (), m)
      else case loadEmbeddingModel ev of
             Some e \<Rightarrow> (Inl e, m)
           | None \<Rightarrow>
               (let m1 = m\<lparr>embeddingModel := True\<rparr>
                in case loadQAModel ev of
                     Some e \<Rightarrow> (Inl e, m1)
                   | None \<Rightarrow> (Inr (), m1\<lparr>qaModel := True, isInitialized := True\<rparr>)))"

definition generateEmbedding :: "env \<Rightarrow> manager \<Rightarrow> jsstring \<Rightarrow> error + jsnum list" where
  "generateEmbedding ev m text =
     (if \<not> embeddingModel m then Inl (Error (js ''Embedding model not initialized''))
      else runEmbeddingModel ev text)"

record qa_result =
  qa_answer :: jsstring
  qa_confidence :: real
  qa_start :: int
  qa_end :: int

text \<open>\<open>a || b\<close> on an optional string (the empty string is falsy) and on an optional
  number (zero is falsy).\<close>

definition orString :: "jsstring option \<Rightarrow> jsstring \<Rightarrow> jsstring" where
  "orString a b = (case a of Some t \<Rightarrow> if t \<noteq> [] then t else b | None \<Rightarrow> b)"

definition orNumber :: "'a::zero option \<Rightarrow> 'a \<Rightarrow> 'a" where
  "orNumber a b = (case a of Some x \<Rightarrow> if x \<noteq> 0 then x else b | None \<Rightarrow> b)"

text \<open>
  \<open>extractAnswer\<close>. When the model returns an array its first element is taken; on an
  empty array that element is \<open>undefined\<close> and reading \<open>answer\<close> from it throws a
  \<open>TypeError\<close>.
\<close>

definition extractAnswer :: "env \<Rightarrow> manager \<Rightarrow> jsstring \<Rightarrow> jsstring \<Rightarrow> error + qa_result" where
  "extractAnswer ev m question ctx =
     (if \<not> qaModel m then Inl (Error (js ''QA model not initialized''))
      else case runQAModel ev question ctx of
             Inl e \<Rightarrow> Inl e
           | Inr result \<Rightarrow>
               (case (case result of Single r \<Rightarrow> Some r
                                   | Many rs \<Rightarrow> (case rs of [] \<Rightarrow> None | r # _ \<Rightarrow> Some r)) of
                  None \<Rightarrow> Inl (Error (js ''TypeError''))
                | Some qaResult \<Rightarrow>
                    Inr \<lparr>qa_answer = orString (raw_answer qaResult) (orString (raw_text qaResult) []),
                         qa_confidence = orNumber (raw_score qaResult) (orNumber (raw_confidence qaResult) 0),
                         qa_start = orNumber (raw_start qaResult) 0,
                         qa_end = orNumber (raw_end qaResult) 0\<rparr>))"

section \<open>ai-processor.ts: embeddings and retrieval\<close>

text \<open>
  \<open>generateChunkEmbeddings\<close>: \<open>initialize\<close> is awaited outside the loop's \<open>try\<close>, so its
  failure is the failure of the call. Inside the loop a chunk whose embedding throws is
  skipped. The progress callback is called inside the same \<open>try\<close>, after the push: if it
  throws, the throw is caught there and changes nothing, so it does not appear here.
\<close>

fun embedChunks :: "env \<Rightarrow> manager \<Rightarrow> DocumentChunk list \<Rightarrow> EmbeddingResult list \<Rightarrow> EmbeddingResult list" where
  "embedChunks ev m [] results = results"
| "embedChunks ev m (chunk # chunks) results =
     (case generateEmbedding ev m (dc_text chunk) of
        Inr emb \<Rightarrow>
          embedChunks ev m chunks
            (results @ [\<lparr>embedding = emb, er_text = dc_text chunk, chunkId = dc_id chunk\<rparr>])
      | Inl e \<Rightarrow> embedChunks ev m chunks results)"

definition generateChunkEmbeddings ::
  "env \<Rightarrow> manager \<Rightarrow> DocumentChunk list \<Rightarrow> (error + EmbeddingResult list) \<times> manager" where
  "generateChunkEmbeddings ev m chunks =
     (case initialize ev m of
        (Inl e, m') \<Rightarrow> (Inl e, m')
      | (Inr u, m') \<Rightarrow> (Inr (embedChunks ev m' chunks []), m'))"

text \<open>
  \<open>cosineSimilarity\<close>: the loop accumulates the three sums over the indices of \<open>a\<close>, each
  \<open>+=\<close> and each product rounded; then one division by the product of the two square
  roots.
\<close>

definition cosineSums :: "jsnum list \<Rightarrow> jsnum list \<Rightarrow> jsnum \<times> jsnum \<times> jsnum" where
  "cosineSums a b =
     foldl (\<lambda>(dotProduct, normA, normB) i.
              (jsAdd dotProduct (jsMul (a ! i) (b ! i)),
               jsAdd normA (jsMul (a ! i) (a ! i)),
               jsAdd normB (jsMul (b ! i) (b ! i))))
           (Fin 0, Fin 0, Fin 0) [0..<length a]"

definition cosineSimilarity :: "jsnum list \<Rightarrow> jsnum list \<Rightarrow> error + jsnum" where
  "cosineSimilarity a b =
     (if length a \<noteq> length b then Inl (Error (js ''Vectors must have the same length''))
      else case cosineSums a b of
             (dotProduct, normA, normB) \<Rightarrow>
               Inr (jsDiv dotProduct (jsMul (jsSqrt normA) (jsSqrt normB))))"

text \<open>
  \<open>Array.prototype.sort(comparefn)\<close>, with the comparator of \<open>findRelevantChunks\<close> a
  subtraction of two numbers. The sort is stable, and \<open>a\<close> is placed behind \<open>b\<close>
  only when \<open>comparefn(a, b) > 0\<close>; a comparator value of NaN counts as \<open>+0\<close>. For a
  consistent comparator this fixes the result, and the insertion sort below computes
  it. For an inconsistent one (NaN among the keys) ECMAScript leaves the order to the
  implementation; the model then gives the order of this insertion sort.
\<close>

definition isPositive :: "jsnum \<Rightarrow> bool" where
  "isPositive v = (case v of Fin x \<Rightarrow> x > 0 | PosInf \<Rightarrow> True | NegInf \<Rightarrow> False | NaN \<Rightarrow> False)"

fun insertBy :: "('a \<Rightarrow> 'a \<Rightarrow> jsnum) \<Rightarrow> 'a \<Rightarrow> 'a list \<Rightarrow> 'a list" where
  "insertBy cmp x [] = [x]"
| "insertBy cmp x (y # ys) =
     (if isPositive (cmp x y) then y # insertBy cmp x ys else x # y # ys)"

fun jsSort :: "('a \<Rightarrow> 'a \<Rightarrow> jsnum) \<Rightarrow> 'a list \<Rightarrow> 'a list" where
  "jsSort cmp [] = []"
| "jsSort cmp (x # xs) = insertBy cmp x (jsSort cmp xs)"

text \<open>\<open>{ ...chunk, similarity: sim }\<close>\<close>

definition scored :: "EmbeddingResult \<Rightarrow> jsnum \<Rightarrow> ScoredChunk" where
  "scored chunk sim = EmbeddingResult.extend chunk (ScoredChunk.fields sim)"

text \<open>The \<open>map\<close> of \<open>findRelevantChunks\<close>: the first \<open>cosineSimilarity\<close> that throws ends it.\<close>

fun scoreChunks :: "jsnum list \<Rightarrow> EmbeddingResult list \<Rightarrow> error + ScoredChunk list" where
  "scoreChunks q [] = Inr []"
| "scoreChunks q (chunk # chunks) =
     (case cosineSimilarity q (embedding chunk) of
        Inl e \<Rightarrow> Inl e
      | Inr sim \<Rightarrow>
          (case scoreChunks q chunks of
             Inl e \<Rightarrow> Inl e
           | Inr rest \<Rightarrow> Inr (scored chunk sim # rest)))"

definition searchQuery :: "ESRSMetric \<Rightarrow> jsstring" where
  "searchQuery metric =
     m_label metric @ [chSpace] @ join [chSpace] (m_keywords metric) @ [chSpace] @ m_description metric"

text \<open>\<open>findRelevantChunks(metric, chunkEmbeddings, topK = 5)\<close>; \<open>topK\<close> is an integer.\<close>

definition findRelevantChunks ::
  "env \<Rightarrow> manager \<Rightarrow> ESRSMetric \<Rightarrow> EmbeddingResult list \<Rightarrow> int \<Rightarrow> (error + ScoredChunk list) \<times> manager" where
  "findRelevantChunks ev m metric chunkEmbeddings topK =
     (case initialize ev m of
        (Inl e, m') \<Rightarrow> (Inl e, m')
      | (Inr u, m') \<Rightarrow>
          (case generateEmbedding ev m' (searchQuery metric) of
             Inl e \<Rightarrow> (Inl e, m')
           | Inr queryEmbedding \<Rightarrow>
               (case scoreChunks queryEmbedding chunkEmbeddings of
                  Inl e \<Rightarrow> (Inl e, m')
                | Inr similarities \<Rightarrow>
                    (Inr (slice (jsSort (\<lambda>a b. jsSub (similarity b) (similarity a)) similarities) 0 topK),
                     m'))))"

section \<open>ai-processor.ts: extraction of one metric\<close>

text \<open>
  \<open>generateQuestionForMetric\<close>: the table of questions by metric id, and the generic
  question for every other metric. (An id that names a property of \<open>Object.prototype\<close>
  would find that property in the table object; such ids are not modelled.)
\<close>

definition baseQuestions :: "(jsstring \<times> jsstring) list" where
  "baseQuestions =
     [(js ''E1-1'', js ''What is the total Scope 1 GHG emissions in tCO2e?''),
      (js ''E1-2'', js ''What is the total Scope 2 GHG emissions in tCO2e?''),
      (js ''E1-3'', js ''What is the total Scope 3 GHG emissions in tCO2e?''),
      (js ''E1-4'', js ''What is the total energy consumption in MWh?''),
      (js ''E1-5'', js ''What percentage of energy comes from renewable sources?''),
      (js ''E3-1'', js ''What is the total water consumption in cubic meters?''),
      (js ''E5-1'', js ''What is the total waste generated in tonnes?''),
      (js ''S1-1'', js ''How many employees does the company have?''),
      (js ''S1-2'', js ''What percentage of employees are female?''),
      (js ''S1-4'', js ''How many workplace injuries occurred?'')]"

definition generateQuestionForMetric :: "ESRSMetric \<Rightarrow> jsstring" where
  "generateQuestionForMetric metric =
     (case map_of baseQuestions (m_id metric) of
        Some q \<Rightarrow> q
      | None \<Rightarrow>
          (let unit = (case m_unit metric of
                         Some u \<Rightarrow> if u \<noteq> [] then js '' in '' @ u else []
                       | None \<Rightarrow> [])
           in js ''What is the '' @ toLowerCase (m_label metric) @ unit @ js ''?''))"

text \<open>The two patterns of \<open>parseMetricAnswer\<close> and the one of its inner \<open>replace\<close>.\<close>

definition rePrefix :: regex where
  \<comment> \<open>\<open>/^(the\s+|total\s+|approximately\s+|about\s+)/i\<close>\<close>
  "rePrefix = Seq Bol (Grp 1 (alts [Seq (lit ''the'') (Plus (Cls isSpace)),
                                    Seq (lit ''total'') (Plus (Cls isSpace)),
                                    Seq (lit ''approximately'') (Plus (Cls isSpace)),
                                    Seq (lit ''about'') (Plus (Cls isSpace))]))"

definition reNumericUnit :: regex where
  \<comment> \<open>\<open>/(\d+(?:,\d+)*(?:\.\d+)?)\s*([a-zA-Z%]+)?/\<close>\<close>
  "reNumericUnit = seqs [Grp 1 reNumber, Star (Cls isSpace),
                         Opt (Grp 2 (Plus (Cls (\<lambda>c. isLower c \<or> isUpper c \<or> c = 37))))]"

definition reComma :: regex where
  \<comment> \<open>\<open>/,/g\<close>\<close>
  "reComma = Chr chComma"

text \<open>\<open>parseMetricAnswer\<close> returns \<open>{ value, units }\<close>, here as a pair.\<close>

definition parseMetricAnswer :: "jsstring \<Rightarrow> ESRSMetric \<Rightarrow> jsstring option \<times> jsstring option" where
  "parseMetricAnswer answer metric =
     (let cleanAnswer = trim (replaceFirst True rePrefix (\<lambda>m caps. []) answer)
      in case match False reNumericUnit cleanAnswer of
           Some (m, caps) \<Rightarrow>
             (Some (replaceAll False reComma (\<lambda>m caps. []) (cap caps 1)),
              (case caps 2 of
                 Some u \<Rightarrow> if u \<noteq> [] then Some u else m_unit metric
               | None \<Rightarrow> m_unit metric))
         | None \<Rightarrow> (Some cleanAnswer, None))"

text \<open>
  \<open>findEvidenceChunk\<close>: the \<open>for\<close> loop over the retrieved entries, then the fall-back
  to the first of them. \<open>documentChunks.find\<close> gives the first chunk with the id.
\<close>

fun findContaining ::
  "jsstring \<Rightarrow> DocumentChunk list \<Rightarrow> 'a EmbeddingResult_scheme list \<Rightarrow> DocumentChunk option" where
  "findContaining answer documentChunks [] = None"
| "findContaining answer documentChunks (relevantChunk # rest) =
     (case find (\<lambda>chunk. dc_id chunk = chunkId relevantChunk) documentChunks of
        Some sourceChunk \<Rightarrow>
          if str_includes (dc_text sourceChunk) answer then Some sourceChunk
          else findContaining answer documentChunks rest
      | None \<Rightarrow> findContaining answer documentChunks rest)"

definition findEvidenceChunk ::
  "jsstring \<Rightarrow> DocumentChunk list \<Rightarrow> 'a EmbeddingResult_scheme list \<Rightarrow> DocumentChunk option" where
  "findEvidenceChunk answer documentChunks relevantChunks =
     (case findContaining answer documentChunks relevantChunks of
        Some sourceChunk \<Rightarrow> Some sourceChunk
      | None \<Rightarrow>
          (case relevantChunks of
             [] \<Rightarrow> None
           | first # _ \<Rightarrow> find (\<lambda>chunk. dc_id chunk = chunkId first) documentChunks))"

text \<open>\<open>Number.prototype.toFixed(1)\<close> on an exact real: the nearest multiple of one tenth,
  the larger one at a tie, in decimal notation.\<close>

definition toFixed1 :: "real \<Rightarrow> jsstring" where
  "toFixed1 x =
     (let n = nat \<lfloor>\<bar>x\<bar> * 10 + 1 / 2\<rfloor>
      in (if x < 0 then [45] else []) @ showNat (n div 10) @ [chDot] @ showNat (n mod 10))"

text \<open>The object that both \<open>catch\<close> blocks build for a metric whose extraction threw.\<close>

definition failedExtraction :: "ESRSMetric \<Rightarrow> error \<Rightarrow> MetricExtraction" where
  "failedExtraction metric e =
     \<lparr>metricId = m_id metric, x_value = None, units = None, confidence = 0,
      evidenceChunk = None, evidenceSpan = None, isModelled = False,
      explanation = Some (js ''Extraction failed: '' @ errorMessage e)\<rparr>"

text \<open>
  \<open>extractMetricValue\<close>. \<open>initialize\<close> is awaited before the \<open>try\<close>; the call to
  \<open>extractAnswer\<close>, the parsing and the search for the evidence chunk are inside it.
\<close>

definition extractMetricValue ::
  "env \<Rightarrow> manager \<Rightarrow> ESRSMetric \<Rightarrow> 'a EmbeddingResult_scheme list \<Rightarrow> DocumentChunk list
     \<Rightarrow> (error + MetricExtraction) \<times> manager" where
  "extractMetricValue ev m metric relevantChunks documentChunks =
     (case initialize ev m of
        (Inl e, m') \<Rightarrow> (Inl e, m')
      | (Inr u, m') \<Rightarrow>
          (let ctx = join [chNewline, chNewline] (map er_text relevantChunks)
           in if length (trim ctx) = 0 then
                (Inr \<lparr>metricId = m_id metric, x_value = None, units = None, confidence = 0,
                      evidenceChunk = None, evidenceSpan = None, isModelled = False,
                      explanation = Some (js ''No relevant context found'')\<rparr>, m')
              else
                (let question = generateQuestionForMetric metric
                 in case extractAnswer ev m' question ctx of
                      Inr qaResult \<Rightarrow>
                        (case parseMetricAnswer (qa_answer qaResult) metric of
                           (v, un) \<Rightarrow>
                             (Inr \<lparr>metricId = m_id metric, x_value = v, units = un,
                                   confidence = qa_confidence qaResult,
                                   evidenceChunk =
                                     findEvidenceChunk (qa_answer qaResult) documentChunks relevantChunks,
                                   evidenceSpan = Some (qa_answer qaResult),
                                   isModelled = False,
                                   explanation =
                                     Some (js ''Extracted from context with '' @
                                           toFixed1 (qa_confidence qaResult * 100) @
                                           js ''% confidence'')\<rparr>, m'))
                    | Inl e \<Rightarrow> (Inr (failedExtraction metric e), m'))))"

section \<open>ai-processor.ts: extractAllMetrics\<close>

text \<open>
  The optional progress callback: \<open>None\<close> when the caller passes none, otherwise what a
  call of it does, \<open>Some e\<close> when it throws \<open>e\<close>.
\<close>

type_synonym progress = "(jsstring \<Rightarrow> jsnum \<Rightarrow> error option) option"

definition callProgress :: "progress \<Rightarrow> jsstring \<Rightarrow> jsnum \<Rightarrow> error option" where
  "callProgress onProgress name percent = (case onProgress of None \<Rightarrow> None | Some f \<Rightarrow> f name percent)"

text \<open>
  The loop over \<open>priorityMetrics\<close>, from index \<open>i\<close> on; \<open>n\<close> is
  \<open>priorityMetrics.length\<close>. The progress callback is called outside the \<open>try\<close>; the two
  awaited calls and the push are inside it, and the \<open>catch\<close> pushes the failure object.
  \<open>extracted\<close> is the array \<open>extractions\<close> so far. \<open>percentage i n\<close> is
  \<open>(i / priorityMetrics.length) * 100\<close>.
\<close>

definition percentage :: "nat \<Rightarrow> nat \<Rightarrow> jsnum" where
  "percentage i n = jsMul (jsDiv (Fin (of_nat i)) (Fin (of_nat n))) (Fin 100)"

fun extractLoop ::
  "env \<Rightarrow> progress \<Rightarrow> nat \<Rightarrow> EmbeddingResult list \<Rightarrow> DocumentChunk list \<Rightarrow> manager \<Rightarrow> nat
     \<Rightarrow> ESRSMetric list \<Rightarrow> MetricExtraction list \<Rightarrow> (error + MetricExtraction list) \<times> manager" where
  "extractLoop ev onProgress n chunkEmbeddings documentChunks m i [] extracted =
     (Inr extracted, m)"
| "extractLoop ev onProgress n chunkEmbeddings documentChunks m i (metric # rest) extracted =
     (case callProgress onProgress (m_label metric) (percentage i n) of
        Some e \<Rightarrow> (Inl e, m)
      | None \<Rightarrow>
          (case findRelevantChunks ev m metric chunkEmbeddings 3 of
             (Inl e, m1) \<Rightarrow>
               extractLoop ev onProgress n chunkEmbeddings documentChunks m1 (Suc i) rest
                 (extracted @ [failedExtraction metric e])
           | (Inr relevantChunks, m1) \<Rightarrow>
               (case extractMetricValue ev m1 metric relevantChunks documentChunks of
                  (Inl e, m2) \<Rightarrow>
                    extractLoop ev onProgress n chunkEmbeddings documentChunks m2 (Suc i) rest
                      (extracted @ [failedExtraction metric e])
                | (Inr extraction, m2) \<Rightarrow>
                    extractLoop ev onProgress n chunkEmbeddings documentChunks m2 (Suc i) rest
                      (extracted @ [extraction]))))"

text \<open>\<open>ESRS_METRICS.filter(m => m.priority <= 2).sort((a, b) => a.priority - b.priority)\<close>\<close>

definition priorityMetrics :: "ESRSMetric list \<Rightarrow> ESRSMetric list" where
  "priorityMetrics catalog =
     jsSort (\<lambda>a b. jsSub (Fin (of_int (m_priority a))) (Fin (of_int (m_priority b))))
            (filter (\<lambda>m. m_priority m \<le> 2) catalog)"

text \<open>
  \<open>extractAllMetrics(documentChunks, onProgress)\<close>. \<open>catalog\<close> is the module constant
  \<open>ESRS_METRICS\<close>; \<open>startTime\<close> and \<open>endTime\<close> are the two readings of \<open>Date.now()\<close>.
\<close>

definition extractAllMetrics ::
  "env \<Rightarrow> manager \<Rightarrow> ESRSMetric list \<Rightarrow> int \<Rightarrow> int \<Rightarrow> DocumentChunk list \<Rightarrow> progress
     \<Rightarrow> (error + ExtractionResult) \<times> manager" where
  "extractAllMetrics ev m catalog startTime endTime documentChunks onProgress =
     (case generateChunkEmbeddings ev m documentChunks of
        (Inl e, m') \<Rightarrow> (Inl e, m')
      | (Inr chunkEmbeddings, m') \<Rightarrow>
          (case extractLoop ev onProgress (length (priorityMetrics catalog)) chunkEmbeddings
                  documentChunks m' 0 (priorityMetrics catalog) [] of
             (Inl e, m'') \<Rightarrow> (Inl e, m'')
           | (Inr extracted, m'') \<Rightarrow>
               (Inr \<lparr>extractions = extracted, processingTime = endTime - startTime,
                     totalChunks = length documentChunks\<rparr>, m'')))"

section \<open>Notions used in the statements\<close>

text \<open>\<open>a >= b\<close> on JavaScript numbers: false as soon as one of them is NaN.\<close>

fun jsGe :: "jsnum \<Rightarrow> jsnum \<Rightarrow> bool" where
  "jsGe (Fin x) (Fin y) = (x \<ge> y)"
| "jsGe NaN y = False"
| "jsGe x NaN = False"
| "jsGe PosInf y = True"
| "jsGe x NegInf = True"
| "jsGe (Fin x) PosInf = False"
| "jsGe NegInf y = False"

text \<open>
  A sort key for the numbers other than NaN: it is smaller for the larger number, so
  that sorting by it ascending ranks the numbers descending.
\<close>

definition descKey :: "jsnum \<Rightarrow> int \<times> real" where
  "descKey v = (case v of Fin x \<Rightarrow> (0, - x) | PosInf \<Rightarrow> (- 1, 0) | NegInf \<Rightarrow> (1, 0) | NaN \<Rightarrow> (0, 0))"

text \<open>
  The finite binary64 values are integer multiples of \<open>2 ^ -1074\<close>; \<open>onGrid\<close> holds of
  such a multiple and of the three other values.
\<close>

definition onGrid :: "jsnum \<Rightarrow> bool" where
  "onGrid v =
     (case v of Fin r \<Rightarrow> (\<exists>k :: int. r = of_int k * 2 powi (- 1074))
              | PosInf \<Rightarrow> True | NegInf \<Rightarrow> True | NaN \<Rightarrow> True)"

text \<open>
  What one iteration of the loop of \<open>extractAllMetrics\<close> leaves in the slot of a
  metric, by the outcome of the steps of the iteration. When \<open>findRelevantChunks\<close>
  throws, the slot holds the failure object of the loop's \<open>catch\<close>. Otherwise it holds
  what \<open>extractMetricValue\<close> returns for the retrieved entries, which is its own
  failure object when the question-answering step throws, and the object without
  context when the joined text of the retrieved entries is blank.
\<close>

definition slotOf ::
  "env \<Rightarrow> manager \<Rightarrow> EmbeddingResult list \<Rightarrow> DocumentChunk list \<Rightarrow> ESRSMetric \<Rightarrow> MetricExtraction
     \<Rightarrow> bool" where
  "slotOf ev m chunkEmbeddings documentChunks metric x \<longleftrightarrow>
     (\<forall>e. fst (findRelevantChunks ev m metric chunkEmbeddings 3) = Inl e \<longrightarrow>
        x = \<lparr>metricId = m_id metric, x_value = None, units = None, confidence = 0,
             evidenceChunk = None, evidenceSpan = None, isModelled = False,
             explanation = Some (js ''Extraction failed: '' @ errorMessage e)\<rparr>) \<and>
     (\<forall>relevantChunks.
        fst (findRelevantChunks ev m metric chunkEmbeddings 3) = Inr relevantChunks \<longrightarrow>
        fst (extractMetricValue ev m metric relevantChunks documentChunks) = Inr x \<and>
        (trim (join [chNewline, chNewline] (map er_text relevantChunks)) = [] \<longrightarrow>
           x = \<lparr>metricId = m_id metric, x_value = None, units = None, confidence = 0,
                evidenceChunk = None, evidenceSpan = None, isModelled = False,
                explanation = Some (js ''No relevant context found'')\<rparr>) \<and>
        (\<forall>e. trim (join [chNewline, chNewline] (map er_text relevantChunks)) \<noteq> [] \<and>
             extractAnswer ev m (generateQuestionForMetric metric)
               (join [chNewline, chNewline] (map er_text relevantChunks)) = Inl e \<longrightarrow>
           x = \<lparr>metricId = m_id metric, x_value = None, units = None, confidence = 0,
                evidenceChunk = None, evidenceSpan = None, isModelled = False,
                explanation = Some (js ''Extraction failed: '' @ errorMessage e)\<rparr>) \<and>
        (\<forall>qaResult. trim (join [chNewline, chNewline] (map er_text relevantChunks)) \<noteq> [] \<and>
             extractAnswer ev m (generateQuestionForMetric metric)
               (join [chNewline, chNewline] (map er_text relevantChunks)) = Inr qaResult \<longrightarrow>
           metricId x = m_id metric \<and> x_value x \<noteq> None \<and>
           confidence x = qa_confidence qaResult \<and>
           evidenceSpan x = Some (qa_answer qaResult)))"

text \<open>
  \<open>mostSimilar q chunkEmbeddings first\<close>: the similarity that the retrieved entry \<open>first\<close>
  carries is the cosine similarity of the query embedding \<open>q\<close> with an indexed entry of
  its chunk id, and no indexed entry has a greater one.
\<close>

definition mostSimilar :: "jsnum list \<Rightarrow> EmbeddingResult list \<Rightarrow> ScoredChunk \<Rightarrow> bool" where
  "mostSimilar q chunkEmbeddings first \<longleftrightarrow>
     (\<exists>c \<in> set chunkEmbeddings.
        chunkId c = chunkId first \<and> cosineSimilarity q (embedding c) = Inr (similarity first)) \<and>
     (\<forall>c \<in> set chunkEmbeddings.
        \<exists>v. cosineSimilarity q (embedding c) = Inr v \<and> jsGe (similarity first) v)"

text \<open>
  \<open>req ic p r\<close>: every match of \<open>r\<close> consumes a character that satisfies \<open>p\<close>. It is
  used to show that a pattern cannot match in a text without such a character.
\<close>

fun req :: "bool \<Rightarrow> (jschar \<Rightarrow> bool) \<Rightarrow> regex \<Rightarrow> bool" where
  "req ic p (Chr c) = (\<forall>x. chrMatches ic c x \<longrightarrow> p x)"
| "req ic p (Cls q) = (\<forall>x. q x \<longrightarrow> p x)"
| "req ic p (Seq a b) = (req ic p a \<or> req ic p b)"
| "req ic p (Alt a b) = (req ic p a \<and> req ic p b)"
| "req ic p (Star a) = False"
| "req ic p (Opt a) = False"
| "req ic p (Grp k a) = req ic p a"
| "req ic p Bol = False"
| "req ic p Emp = False"




text \<open>The fifth step of \<open>normalizeText\<close>, from a position on.\<close>

definition pct :: "nat \<Rightarrow> jsstring \<Rightarrow> jsstring" where
  "pct n s = replaceAllFrom False n rePercent (\<lambda>m caps. cap caps 1 @ [37]) s"



section \<open>Example inputs\<close>

text \<open>
  A run in which both models load, every text is embedded as \<open>[1, 0]\<close> and the
  question-answering model answers \<open>1,250 tCO2e\<close> with score one half; a run in which
  the embedding model cannot be loaded; a run whose answer occurs in no chunk; a run in
  which the question-answering model throws; and a progress callback that throws.
\<close>

definition exampleAnswer :: qa_raw where
  "exampleAnswer = \<lparr>raw_answer = Some (js ''1,250 tCO2e''), raw_text = None,
                     raw_score = Some (1 / 2), raw_confidence = None,
                     raw_start = Some 33, raw_end = Some 44\<rparr>"

definition exampleEnv :: env where
  "exampleEnv = \<lparr>loadEmbeddingModel = None, loadQAModel = None,
                  runEmbeddingModel = (\<lambda>t. Inr [Fin 1, Fin 0]),
                  runQAModel = (\<lambda>q c. Inr (Single exampleAnswer))\<rparr>"

definition failingEnv :: env where
  "failingEnv = exampleEnv\<lparr>loadEmbeddingModel := Some (Error (js ''Failed to fetch''))\<rparr>"

definition otherEnv :: env where
  "otherEnv = exampleEnv\<lparr>runQAModel :=
                (\<lambda>q c. Inr (Single (exampleAnswer\<lparr>raw_answer := Some (js ''1250 tonnes'')\<rparr>)))\<rparr>"

definition qaFailingEnv :: env where
  "qaFailingEnv = exampleEnv\<lparr>runQAModel := (\<lambda>q c. Inl (Error (js ''QA failed'')))\<rparr>"

definition throwingProgress :: progress where
  "throwingProgress = Some (\<lambda>name percent. Some (Error (js ''progress failed'')))"

definition readyManager :: manager where
  "readyManager = \<lparr>embeddingModel = True, qaModel = True, isInitialized = True\<rparr>"

definition metricE11 :: ESRSMetric where
  "metricE11 = \<lparr>m_id = js ''E1-1'', m_label = js ''Scope 1 GHG Emissions'',
                 m_keywords = [js ''scope 1'', js ''direct emissions''],
                 m_description = js ''Gross Scope 1 greenhouse gas emissions'',
                 m_unit = Some (js ''tCO2e''), m_priority = 1\<rparr>"

definition metricOther :: ESRSMetric where
  "metricOther = \<lparr>m_id = js ''G1-9'', m_label = js ''Board Diversity'', m_keywords = [],
                   m_description = js ''Share of women on the board'',
                   m_unit = None, m_priority = 3\<rparr>"

definition docScope :: DocumentChunk where
  "docScope = \<lparr>dc_id = js ''report-chunk-0'', dc_page = None, dc_startChar = Some 0,
                dc_endChar = Some 600,
                dc_text = js ''Total Scope 1 GHG emissions were 1,250 tCO2e in 2023'',
                dc_source = js ''report.txt''\<rparr>"

definition docWater :: DocumentChunk where
  "docWater = \<lparr>dc_id = js ''report-chunk-1'', dc_page = None, dc_startChar = Some 600,
                dc_endChar = Some 1200,
                dc_text = js ''Water consumption fell by 3 %'',
                dc_source = js ''report.txt''\<rparr>"

definition docBlank :: DocumentChunk where
  "docBlank = \<lparr>dc_id = js ''report-chunk-3'', dc_page = None, dc_startChar = Some 1200,
                dc_endChar = Some 1800, dc_text = js ''(blank page)'',
                dc_source = js ''report.txt''\<rparr>"

text \<open>Index entries with chosen vectors: against the query \<open>[1, 0]\<close> their cosine
  similarities are 0, 1, 1 and NaN.\<close>

definition embOrthogonal :: EmbeddingResult where
  "embOrthogonal = \<lparr>embedding = [Fin 0, Fin 1], er_text = dc_text docWater, chunkId = dc_id docWater\<rparr>"

definition embAligned :: EmbeddingResult where
  "embAligned = \<lparr>embedding = [Fin 1, Fin 0], er_text = dc_text docScope, chunkId = dc_id docScope\<rparr>"

definition embAlignedToo :: EmbeddingResult where
  "embAlignedToo = \<lparr>embedding = [Fin 1, Fin 0], er_text = js ''Scope 1 again'', chunkId = js ''report-chunk-2''\<rparr>"

definition embZero :: EmbeddingResult where
  "embZero = \<lparr>embedding = [Fin 0, Fin 0], er_text = dc_text docBlank, chunkId = dc_id docBlank\<rparr>"

section \<open>Properties of chunkText\<close>

lemma lastIndexFrom_numeral [simp]:
  "lastIndexFrom s c (numeral n) =
     (if numeral n < length s \<and> s ! numeral n = c then int (numeral n)
      else lastIndexFrom s c (pred_numeral n))"
proof -
  have "numeral n = Suc (pred_numeral n)" by (rule numeral_eq_Suc)
  then show ?thesis by (metis lastIndexFrom.simps(2))
qed

lemma nextStart_gt: "start < nextStart text maxChars overlap start"
  by (simp add: nextStart_def)

lemma chunkLoop_returns: "\<exists>cs. chunkLoop text maxChars overlap start chunks = Some cs"
proof (induction "nat (int (length text) - start)" arbitrary: start chunks rule: less_induct)
  case less
  show ?case
  proof (cases "start < int (length text)")
    case True
    let ?s = "nextStart text maxChars overlap start"
    have "nat (int (length text) - ?s) < nat (int (length text) - start)"
      using True nextStart_gt [of start "text" maxChars overlap] by linarith
    from less [OF this] show ?thesis
      using True by (subst chunkLoop.simps) simp
  next
    case False
    then show ?thesis by (subst chunkLoop.simps) simp
  qed
qed

lemma chunkLoop_elems:
  "chunkLoop text maxChars overlap start chunks = Some cs \<Longrightarrow>
   set cs \<subseteq> set chunks \<union> {trim (slice text s (chunkEnd text maxChars s)) | s. start \<le> s}"
proof (induction "nat (int (length text) - start)" arbitrary: start chunks rule: less_induct)
  case less
  show ?case
  proof (cases "start < int (length text)")
    case True
    let ?s = "nextStart text maxChars overlap start"
    let ?c = "trim (slice text start (chunkEnd text maxChars start))"
    have m: "nat (int (length text) - ?s) < nat (int (length text) - start)"
      using True nextStart_gt [of start "text" maxChars overlap] by linarith
    have r: "chunkLoop text maxChars overlap ?s (chunks @ [?c]) = Some cs"
      using less.prems True by (subst (asm) chunkLoop.simps) simp
    have "set cs \<subseteq> set (chunks @ [?c]) \<union>
            {trim (slice text s (chunkEnd text maxChars s)) | s. ?s \<le> s}"
      by (rule less.hyps [OF m r])
    moreover have "start \<le> ?s"
      using nextStart_gt [of start "text" maxChars overlap] by simp
    ultimately show ?thesis by fastforce
  next
    case False
    then show ?thesis using less.prems by (subst (asm) chunkLoop.simps) auto
  qed
qed

text \<open>
  C9. \<open>chunkText\<close> returns on every text and for all values of \<open>maxChars\<close> and
  \<open>overlap\<close> (also when \<open>overlap \<ge> maxChars\<close>), and the window start strictly increases
  at every iteration of its loop.
\<close>

theorem chunkText_terminates:
  "(\<exists>cs. chunkText text maxChars overlap = Some cs) \<and>
   (\<exists>cs. chunkLoop text maxChars overlap start chunks = Some cs) \<and>
   start < nextStart text maxChars overlap start"
proof -
  obtain cs where "chunkLoop text maxChars overlap 0 [] = Some cs"
    using chunkLoop_returns by blast
  then have "\<exists>cs. chunkText text maxChars overlap = Some cs"
    by (simp add: chunkText_def)
  then show ?thesis
    using chunkLoop_returns nextStart_gt by blast
qed

text \<open>
  C7, as the code has it. When the text is not empty, every string that \<open>chunkText\<close>
  returns is non-empty: the single-element branch returns the text itself, and the
  windowed branch keeps only chunks longer than 50 characters.
\<close>

theorem chunkText_nonempty:
  assumes "text \<noteq> []" and "chunkText text maxChars overlap = Some cs"
  shows "\<forall>c \<in> set cs. c \<noteq> [] \<and> (int (length text) > maxChars \<longrightarrow> length c > 50)"
proof (cases "int (length text) \<le> maxChars")
  case True
  then show ?thesis using assms by (auto simp: chunkText_def)
next
  case False
  then obtain ds where "cs = filter (\<lambda>chunk. length chunk > 50) ds"
    using assms(2) by (auto simp: chunkText_def)
  then show ?thesis by auto
qed

text \<open>Scenario A of the specification: \<open>chunkText("short text", 800, 200)\<close>.\<close>

theorem chunkText_nonempty_witness:
  "js ''short text'' \<noteq> [] \<and> chunkText (js ''short text'') 800 200 = Some [js ''short text''] \<and>
   list_all (\<lambda>c. c \<noteq> []) [js ''short text'']"
proof -
  have a: "js ''short text'' \<noteq> []" by (simp add: js_def)
  have b: "chunkText (js ''short text'') 800 200 = Some [js ''short text'']"
    by (simp add: chunkText_def js_def)
  show ?thesis using a b chunkText_nonempty [OF a b] by (simp add: list_all_iff)
qed

text \<open>
  C7, as the claim states it, fails on the empty text: the single-element branch returns
  the text as it is, so \<open>chunkText("", 800, 200)\<close> is the list holding the empty string.
\<close>

theorem chunkText_empty_counterexample:
  "chunkText [] 800 200 = Some [[]] \<and> (\<exists>c \<in> set [[] :: jsstring]. c = [])"
  by (simp add: chunkText_def)

text \<open>
  C2 at a failing input: fifty letters \<open>a\<close>, a full stop at index 50 and one more letter,
  chunked with \<open>maxChars = 50\<close> and no overlap. The candidate end is 50, \<open>lastIndexOf\<close>
  searches from index 50 inclusive and finds the full stop there, and the window end
  becomes 51: the only chunk returned has 51 characters.
\<close>

theorem chunkText_exceeds_maxChars:
  "chunkText (replicate 50 97 @ [chDot, 98]) 50 0 = Some [replicate 50 97 @ [chDot]] \<and>
   length (replicate 50 97 @ [chDot]) = 51"
proof -
  define t where "t = replicate 50 97 @ [chDot, 98]"
  have l: "int (length t) = 52" by (simp add: t_def)
  have e0: "chunkEnd t 50 0 = 51"
    by (simp add: t_def chunkEnd_def lastIndexOf_def chDot_def chNewline_def nth_append)
  have e1: "chunkEnd t 50 51 = 52"
    by (simp add: t_def chunkEnd_def)
  have s0: "trim (slice t 0 51) = replicate 50 97 @ [chDot]"
    by (simp add: t_def slice_def sliceIndex_def trim_def isSpace_def chDot_def)
  have s1: "trim (slice t 51 52) = [98]"
    by (simp add: t_def slice_def sliceIndex_def trim_def isSpace_def chDot_def)
  have l2: "chunkLoop t 50 0 52 [replicate 50 97 @ [chDot], [98]] =
              Some [replicate 50 97 @ [chDot], [98]]"
    by (subst chunkLoop.simps) (simp add: l)
  have l1: "chunkLoop t 50 0 51 [replicate 50 97 @ [chDot]] =
              Some [replicate 50 97 @ [chDot], [98]]"
    by (subst chunkLoop.simps) (simp add: l nextStart_def e1 s1 l2)
  have l0: "chunkLoop t 50 0 0 [] = Some [replicate 50 97 @ [chDot], [98]]"
    by (subst chunkLoop.simps) (simp add: l nextStart_def e0 s0 l1)
  have "chunkText t 50 0 = Some [replicate 50 97 @ [chDot]]"
    using l by (simp add: chunkText_def l0)
  then show ?thesis by (simp add: t_def)
qed

lemma length_trim: "length (trim s) \<le> length s"
proof -
  have "length (trim s) = length (dropWhile isSpace (rev (dropWhile isSpace s)))"
    by (simp add: trim_def)
  also have "\<dots> \<le> length (rev (dropWhile isSpace s))" by (rule length_dropWhile_le)
  also have "\<dots> \<le> length s" by (simp add: length_dropWhile_le)
  finally show ?thesis .
qed

lemma lastIndexFrom_le: "lastIndexFrom s c k \<le> int k"
  by (induction k) auto

lemma lastIndexOf_le: "lastIndexOf s c position \<le> max position 0"
proof (cases "s = []")
  case True
  then show ?thesis by (simp add: lastIndexOf_def)
next
  case False
  have "lastIndexFrom s c (nat (min (max position 0) (int (length s) - 1)))
          \<le> int (nat (min (max position 0) (int (length s) - 1)))"
    by (rule lastIndexFrom_le)
  then show ?thesis using False by (simp add: lastIndexOf_def)
qed

lemma chunkEnd_bounds:
  assumes "0 \<le> maxChars" "0 \<le> start"
  shows "0 \<le> chunkEnd text maxChars start \<and> chunkEnd text maxChars start \<le> start + maxChars + 1"
proof -
  define e where "e = min (start + maxChars) (int (length text))"
  define b where "b = max (lastIndexOf text chDot e) (lastIndexOf text chNewline e)"
  have e: "0 \<le> e" "e \<le> start + maxChars" using assms by (simp_all add: e_def)
  have "lastIndexOf text chDot e \<le> e" "lastIndexOf text chNewline e \<le> e"
    using lastIndexOf_le [of "text" chDot e] lastIndexOf_le [of "text" chNewline e] e by simp_all
  then have b: "b \<le> e" by (simp add: b_def)
  have c: "chunkEnd text maxChars start =
             (if e < int (length text) \<and> (of_int b :: real) > of_int start + of_int maxChars * 0.5
              then b + 1 else e)"
    by (simp add: chunkEnd_def Let_def e_def b_def)
  show ?thesis
  proof (cases "e < int (length text) \<and> (of_int b :: real) > of_int start + of_int maxChars * 0.5")
    case True
    then have "(0 :: real) < of_int b" using assms by simp
    then have "0 < b" by simp
    then show ?thesis using True b e by (simp add: c)
  next
    case False
    then show ?thesis using e by (auto simp add: c)
  qed
qed

lemma length_slice:
  assumes "0 \<le> start" "0 \<le> e"
  shows "int (length (slice s start e)) \<le> max (e - start) 0"
proof -
  have "length (slice s start e) \<le> sliceIndex (length s) e - sliceIndex (length s) start"
    by (simp add: slice_def Let_def)
  also have "int \<dots> \<le> max (e - start) 0"
    using assms by (simp add: sliceIndex_def min_def max_def) linarith
  finally show ?thesis by simp
qed

lemma chunk_length_le:
  assumes "0 \<le> maxChars" "0 \<le> start"
  shows "int (length (trim (slice text start (chunkEnd text maxChars start)))) \<le> maxChars + 1"
proof -
  have "int (length (trim (slice text start (chunkEnd text maxChars start))))
          \<le> int (length (slice text start (chunkEnd text maxChars start)))"
    using length_trim by simp
  also have "\<dots> \<le> max (chunkEnd text maxChars start - start) 0"
    using chunkEnd_bounds [OF assms, of "text"] by (intro length_slice [OF assms(2)]) simp
  also have "\<dots> \<le> maxChars + 1"
    using chunkEnd_bounds [OF assms, of "text"] assms(1) by simp
  finally show ?thesis .
qed

text \<open>
  What the window arithmetic does guarantee for a non-negative \<open>maxChars\<close>: the break
  point is at most the candidate end, so a chunk is at most one character longer than
  \<open>maxChars\<close>.
\<close>

lemma chunkText_length_bound:
  assumes m: "0 \<le> maxChars" and r: "chunkText text maxChars overlap = Some cs"
    and c: "chunk \<in> set cs"
  shows "int (length chunk) \<le> maxChars + 1"
proof (cases "int (length text) \<le> maxChars")
  case True
  then show ?thesis using r c by (auto simp add: chunkText_def)
next
  case False
  then obtain ds where ds: "chunkLoop text maxChars overlap 0 [] = Some ds"
    and cs: "cs = filter (\<lambda>chunk. length chunk > 50) ds"
    using r by (auto simp add: chunkText_def)
  from c cs have "chunk \<in> set ds" by simp
  with chunkLoop_elems [OF ds] obtain s where s: "0 \<le> s"
    and ch: "chunk = trim (slice text s (chunkEnd text maxChars s))"
    by auto
  show ?thesis unfolding ch by (rule chunk_length_le [OF m s])
qed

section \<open>Rounding\<close>

lemma ulpExp_ge: "- 1074 \<le> ulpExp x"
  by (simp add: ulpExp_def)

lemma roundEven_bounds: "\<lfloor>x\<rfloor> \<le> roundEven x \<and> roundEven x \<le> \<lfloor>x\<rfloor> + 1"
  by (simp add: roundEven_def Let_def)

lemma maxDouble_pos: "0 < maxDouble"
  by (simp add: maxDouble_def)

lemma powi_grid: "- 1074 \<le> q \<Longrightarrow> (2 :: real) powi q = of_int (2 ^ nat (q + 1074)) * 2 powi (- 1074)"
proof -
  assume a: "- 1074 \<le> q"
  have "(2 :: real) powi q = 2 powi (int (nat (q + 1074)) + (- 1074))"
    using a by simp
  also have "\<dots> = 2 powi (int (nat (q + 1074))) * 2 powi (- 1074)"
    by (rule power_int_add) simp
  also have "\<dots> = of_int (2 ^ nat (q + 1074)) * 2 powi (- 1074)"
    by (simp only: power_int_of_nat) simp
  finally show ?thesis .
qed

lemma round64_grid: "onGrid (round64 x)"
proof (cases "x = 0")
  case True
  have "(0 :: real) = of_int 0 * 2 powi (- 1074)" by simp
  then show ?thesis using True unfolding round64_def onGrid_def by (simp del: of_int_0) 
next
  case False
  define q where "q = ulpExp x"
  define n where "n = roundEven (x / 2 powi q)"
  have "of_int n * (2 :: real) powi q = of_int (n * 2 ^ nat (q + 1074)) * 2 powi (- 1074)"
    using powi_grid [of q] ulpExp_ge [of x] by (simp add: q_def)
  then have "\<exists>k :: int. of_int n * (2 :: real) powi q = of_int k * 2 powi (- 1074)" by blast
  then show ?thesis
    using False by (simp add: round64_def onGrid_def Let_def q_def n_def)
qed

lemma powi_ulpExp_le:
  assumes "2 powi (- 1074) \<le> \<bar>d\<bar>"
  shows "2 powi (ulpExp d) \<le> \<bar>d\<bar>"
proof (cases "ulpExp d = - 1074")
  case True
  then show ?thesis using assms by simp
next
  case False
  have pos: "0 < \<bar>d\<bar>" using assms by (smt (verit) zero_less_power_int)
  from False have q: "ulpExp d = \<lfloor>log 2 \<bar>d\<bar>\<rfloor> - 52" by (simp add: ulpExp_def max_def split: if_splits)
  have "(2 :: real) powi (ulpExp d) \<le> 2 powi \<lfloor>log 2 \<bar>d\<bar>\<rfloor>"
    unfolding q by (rule power_int_increasing) simp_all
  also have "\<dots> = 2 powr (of_int \<lfloor>log 2 \<bar>d\<bar>\<rfloor>)"
    by (simp add: powr_real_of_int')
  also have "\<dots> \<le> 2 powr (log 2 \<bar>d\<bar>)"
    by (rule powr_mono) simp_all
  also have "\<dots> = \<bar>d\<bar>" using pos by simp
  finally show ?thesis .
qed

lemma round64_pos:
  assumes "2 powi (- 1074) \<le> d"
  shows "isPositive (round64 d)"
proof -
  have dpos: "0 < d" using assms by (smt (verit) zero_less_power_int)
  define q where "q = ulpExp d"
  define n where "n = roundEven (d / 2 powi q)"
  have p: "(0 :: real) < 2 powi q" by simp
  have "2 powi q \<le> d" using powi_ulpExp_le [of d] assms dpos by (simp add: q_def)
  then have "1 \<le> d / 2 powi q" using p by (simp add: le_divide_eq)
  then have "1 \<le> \<lfloor>d / 2 powi q\<rfloor>" by (simp add: le_floor_iff)
  moreover have "\<lfloor>d / 2 powi q\<rfloor> \<le> n"
    unfolding n_def using roundEven_bounds [of "d / 2 powi q"] by (rule conjunct1)
  ultimately have "1 \<le> n" by linarith
  then have "0 < of_int n * (2 :: real) powi q" using p by simp
  then show ?thesis
    using dpos maxDouble_pos
    by (auto simp add: round64_def Let_def isPositive_def q_def n_def)
qed

lemma round64_nonpos:
  assumes "d \<le> 0"
  shows "\<not> isPositive (round64 d)"
proof (cases "d = 0")
  case True
  then show ?thesis by (simp add: round64_def isPositive_def)
next
  case False
  then have dneg: "d < 0" using assms by simp
  define q where "q = ulpExp d"
  define n where "n = roundEven (d / 2 powi q)"
  have p: "(0 :: real) < 2 powi q" by simp
  have "d / 2 powi q < 0" using dneg p by (simp add: divide_less_0_iff)
  then have "\<lfloor>d / 2 powi q\<rfloor> < 0" by (simp add: floor_less_iff)
  moreover have "n \<le> \<lfloor>d / 2 powi q\<rfloor> + 1"
    unfolding n_def using roundEven_bounds [of "d / 2 powi q"] by (rule conjunct2)
  ultimately have "n \<le> 0" by linarith
  then have "of_int n * (2 :: real) powi q \<le> 0" using p by (simp add: mult_le_0_iff)
  then show ?thesis
    using False maxDouble_pos
    by (auto simp add: round64_def Let_def isPositive_def q_def n_def)
qed

lemma round64_diff_pos_iff:
  assumes "onGrid (Fin x)" "onGrid (Fin y)"
  shows "isPositive (round64 (y - x)) \<longleftrightarrow> x < y"
proof
  assume "isPositive (round64 (y - x))"
  then show "x < y" using round64_nonpos [of "y - x"] by fastforce
next
  assume lt: "x < y"
  define u :: real where "u = 2 powi (- 1074)"
  obtain k l :: int where k: "x = of_int k * u" and l: "y = of_int l * u"
    using assms by (auto simp: onGrid_def u_def)
  have u: "0 < u" by (simp add: u_def)
  have "of_int k * u < of_int l * u" using lt k l by simp
  then have "k < l" using u by (simp add: mult_less_cancel_right)
  then have "1 \<le> l - k" by simp
  then have "(1 :: real) \<le> of_int (l - k)" by (metis of_int_1_le_iff)
  then have "1 * u \<le> of_int (l - k) * u"
    using u by (intro mult_right_mono) simp_all
  also have "\<dots> = y - x" by (simp add: k l left_diff_distrib)
  finally have "2 powi (- 1074) \<le> y - x" by (simp add: u_def)
  then show "isPositive (round64 (y - x))" by (rule round64_pos)
qed

lemma round64_0 [simp]: "round64 0 = Fin 0" by (simp add: round64_def)

lemma round64_1 [simp]: "round64 1 = Fin 1"
  by (simp add: round64_def ulpExp_def roundEven_def maxDouble_def Let_def power_int_minus)

lemma round64_m1 [simp]: "round64 (- 1) = Fin (- 1)"
  by (simp add: round64_def ulpExp_def roundEven_def maxDouble_def Let_def power_int_minus)

lemma onGrid_simps [simp]:
  "onGrid (Fin 0)" "onGrid PosInf" "onGrid NegInf" "onGrid NaN" "onGrid (signedInf p)"
  by (simp_all add: onGrid_def signedInf_def)

lemma jsDiv_onGrid: "onGrid (jsDiv x y)"
  by (cases x; cases y) (simp_all add: round64_grid)



lemma roundEven_small:
  assumes "0 \<le> z" "z < 1 / 2"
  shows "roundEven z = 0"
proof -
  have "\<lfloor>z\<rfloor> = 0" using assms by (simp add: floor_eq_iff)
  then show ?thesis using assms by (simp add: roundEven_def Let_def)
qed

lemma round64_tiny:
  assumes "0 < x" "x < 2 powi (- 1075)"
  shows "round64 x = Fin 0"
proof -
  have "(2 :: real) powr (of_int (- 1075)) = 2 powi (- 1075)"
    by (rule powr_real_of_int') simp_all
  then have "x < 2 powr (of_int (- 1075))"
    using assms by simp
  then have "log 2 x < of_int (- 1075)"
    using assms by (simp add: log_less_iff del: of_int_minus)
  then have fl: "\<lfloor>log 2 x\<rfloor> < - 1075" by (simp add: floor_less_iff)
  have "\<bar>x\<bar> = x" using assms by simp
  then have "ulpExp x = max (\<lfloor>log 2 x\<rfloor> - 52) (- 1074)" by (simp only: ulpExp_def)
  then have q: "ulpExp x = - 1074" using fl by linarith
  have "x / 2 powi (- 1074) < 1 / 2"
  proof -
    have "(2 :: real) powi (- 1075) = 2 powi (- 1074) * 2 powi (- 1)"
      by (simp add: power_int_add [symmetric] del: power_int_minus)
    then have "x < 2 powi (- 1074) / 2" using assms by simp
    then show ?thesis by (simp add: divide_less_eq)
  qed
  moreover have "0 \<le> x / 2 powi (- 1074)" using assms by simp
  ultimately have "roundEven (x / 2 powi (- 1074)) = 0"
    by (intro roundEven_small)
  then show ?thesis using assms maxDouble_pos by (simp add: round64_def q Let_def)
qed

lemma onGrid_of_int: "onGrid (Fin (of_int n))"
proof -
  have "(1 :: real) = 2 powi (1074 + (- 1074))" by simp
  also have "\<dots> = 2 powi 1074 * 2 powi (- 1074)"
    by (rule power_int_add) simp
  also have "\<dots> = of_int (2 ^ 1074) * 2 powi (- 1074)" by simp
  finally have "(of_int n :: real) = of_int (n * 2 ^ 1074) * 2 powi (- 1074)"
    by (simp del: power_int_minus)
  then show ?thesis unfolding onGrid_def by (simp only: jsnum.case) blast
qed

text \<open>
  On binary64 values other than NaN the comparator \<open>b - a\<close> is positive exactly when
  \<open>b\<close> is the greater number: the difference of two distinct values does not round to
  zero, and the difference of two equal infinities, NaN, counts as a tie.
\<close>

lemma jsSub_desc:
  assumes "onGrid a" "onGrid b" "a \<noteq> NaN" "b \<noteq> NaN"
  shows "isPositive (jsSub b a) \<longleftrightarrow> descKey b < descKey a"
proof (cases a)
  case a: (Fin x)
  show ?thesis
  proof (cases b)
    case (Fin y)
    have "isPositive (round64 (y - x)) \<longleftrightarrow> x < y"
      using assms(1,2) unfolding a Fin by (rule round64_diff_pos_iff)
    then show ?thesis by (simp add: a Fin descKey_def)
  qed (use assms in \<open>simp_all add: a descKey_def isPositive_def\<close>)
next
  case PosInf
  then show ?thesis using assms by (cases b) (simp_all add: descKey_def isPositive_def)
next
  case NegInf
  then show ?thesis using assms by (cases b) (simp_all add: descKey_def isPositive_def)
next
  case NaN
  then show ?thesis using assms by simp
qed

lemma descKey_le:
  assumes "a \<noteq> NaN" "b \<noteq> NaN"
  shows "descKey a \<le> descKey b \<longleftrightarrow> jsGe a b"
  using assms by (cases a; cases b) (simp_all add: descKey_def)


section \<open>Cosine similarity and sorting\<close>

lemma cosineSimilarity_Inr_length: "cosineSimilarity a b = Inr v \<Longrightarrow> length a = length b"
  by (auto simp: cosineSimilarity_def split: if_splits)

lemma cosineSimilarity_returns:
  "length a = length b \<Longrightarrow> \<exists>v. cosineSimilarity a b = Inr v"
  by (simp add: cosineSimilarity_def split: prod.split)

lemma cosineSimilarity_onGrid: "cosineSimilarity a b = Inr v \<Longrightarrow> onGrid v"
  by (auto simp: cosineSimilarity_def jsDiv_onGrid split: if_splits prod.splits)

text \<open>
  A vector without a zero component can still have the similarity NaN: the square of
  \<open>10 ^ -200\<close> underflows to zero, and so does the norm.
\<close>

lemma cosineSimilarity_underflow:
  "cosineSimilarity [Fin 1, Fin 0] [Fin 0, Fin (1 / 10 ^ 200)] = Inr NaN"
proof -
  have "round64 (1 / 10 ^ 200 * (1 / 10 ^ 200)) = Fin 0"
    by (rule round64_tiny) (simp_all add: power_int_minus)
  then show ?thesis
    by (simp add: cosineSimilarity_def cosineSums_def upt_rec)
qed

lemma insertBy_insort_key:
  assumes "\<forall>y \<in> set ys. isPositive (cmp x y) \<longleftrightarrow> f y < f x"
  shows "insertBy cmp x ys = insort_key f x ys"
  using assms by (induction ys) (auto simp: not_le)

lemma jsSort_sort_key:
  fixes f :: "'a \<Rightarrow> 'k::linorder"
  assumes "\<forall>x \<in> set xs. \<forall>y \<in> set xs. isPositive (cmp x y) \<longleftrightarrow> f y < f x"
  shows "jsSort cmp xs = sort_key f xs"
  using assms
proof (induction xs)
  case Nil
  then show ?case by simp
next
  case (Cons x xs)
  then have ih: "jsSort cmp xs = sort_key f xs" by simp
  have "\<forall>y \<in> set (sort_key f xs). isPositive (cmp x y) \<longleftrightarrow> f y < f x"
    using Cons.prems by simp
  then have "insertBy cmp x (sort_key f xs) = insort_key f x (sort_key f xs)"
    by (rule insertBy_insort_key)
  then show ?case by (simp add: ih)
qed


lemma scoreChunks_list_all2:
  "scoreChunks q chunks = Inr entries \<Longrightarrow>
   list_all2 (\<lambda>c s. embedding s = embedding c \<and> er_text s = er_text c \<and> chunkId s = chunkId c \<and>
                    cosineSimilarity q (embedding c) = Inr (similarity s)) chunks entries"
proof (induction chunks arbitrary: entries)
  case Nil
  then show ?case by simp
next
  case (Cons c cs)
  then show ?case
    by (auto split: sum.splits simp: scored_def EmbeddingResult.extend_def ScoredChunk.fields_def)
qed

lemma findRelevantChunks_Inr:
  assumes "findRelevantChunks ev m metric chunkEmbeddings topK = (Inr out, m')"
  shows "\<exists>q entries. runEmbeddingModel ev (searchQuery metric) = Inr q \<and>
           scoreChunks q chunkEmbeddings = Inr entries \<and>
           out = slice (jsSort (\<lambda>a b. jsSub (similarity b) (similarity a)) entries) 0 topK"
proof -
  obtain r1 m1 where i: "initialize ev m = (r1, m1)" by (cases "initialize ev m")
  show ?thesis
  proof (cases r1)
    case (Inl e)
    then show ?thesis using assms i by (simp add: findRelevantChunks_def)
  next
    case (Inr u)
    show ?thesis
    proof (cases "generateEmbedding ev m1 (searchQuery metric)")
      case (Inl e)
      then show ?thesis using assms i Inr by (simp add: findRelevantChunks_def)
    next
      case g: (Inr q)
      then have q: "runEmbeddingModel ev (searchQuery metric) = Inr q"
        by (simp add: generateEmbedding_def split: if_splits)
      show ?thesis
      proof (cases "scoreChunks q chunkEmbeddings")
        case (Inl e)
        then show ?thesis using assms i Inr g by (simp add: findRelevantChunks_def)
      next
        case sc: (Inr entries)
        then show ?thesis using assms i Inr g q by (simp add: findRelevantChunks_def)
      qed
    qed
  qed
qed


text \<open>
  When no similarity is NaN, \<open>findRelevantChunks\<close> returns a slice of the stable sort
  of the scored entries by descending similarity.
\<close>

lemma findRelevantChunks_sort_key:
  assumes ret: "findRelevantChunks ev m metric chunkEmbeddings topK = (Inr out, m')"
    and q: "runEmbeddingModel ev (searchQuery metric) = Inr q"
    and nonan: "\<forall>c \<in> set chunkEmbeddings. cosineSimilarity q (embedding c) \<noteq> Inr NaN"
  shows "\<exists>entries.
           list_all2 (\<lambda>c s. embedding s = embedding c \<and> er_text s = er_text c \<and>
                            chunkId s = chunkId c \<and>
                            cosineSimilarity q (embedding c) = Inr (similarity s))
                     chunkEmbeddings entries \<and>
           (\<forall>s \<in> set entries. similarity s \<noteq> NaN) \<and>
           out = slice (sort_key (\<lambda>s. descKey (similarity s)) entries) 0 topK"
proof -
  let ?cmp = "\<lambda>a b :: ScoredChunk. jsSub (similarity b) (similarity a)"
  let ?f = "\<lambda>s :: ScoredChunk. descKey (similarity s)"
  obtain q' entries where q': "runEmbeddingModel ev (searchQuery metric) = Inr q'"
    and sc: "scoreChunks q' chunkEmbeddings = Inr entries"
    and out: "out = slice (jsSort ?cmp entries) 0 topK"
    using findRelevantChunks_Inr [OF ret] by blast
  have qq: "q' = q" using q q' by simp
  have la: "list_all2 (\<lambda>c s. embedding s = embedding c \<and> er_text s = er_text c \<and>
                            chunkId s = chunkId c \<and>
                            cosineSimilarity q (embedding c) = Inr (similarity s))
                     chunkEmbeddings entries"
    using scoreChunks_list_all2 [OF sc] by (simp only: qq)
  have len: "length entries = length chunkEmbeddings"
    using la by (simp add: list_all2_lengthD)
  have sim: "similarity s \<noteq> NaN \<and> onGrid (similarity s)" if sin: "s \<in> set entries" for s
  proof -
    obtain i where i: "i < length entries" "entries ! i = s"
      using sin by (auto simp: in_set_conv_nth)
    have c: "cosineSimilarity q (embedding (chunkEmbeddings ! i)) = Inr (similarity s)"
      using la i by (auto simp: list_all2_conv_all_nth)
    moreover have "cosineSimilarity q (embedding (chunkEmbeddings ! i)) \<noteq> Inr NaN"
      using nonan i len by (simp add: nth_mem)
    ultimately have "similarity s \<noteq> NaN" by auto
    then show ?thesis using cosineSimilarity_onGrid [OF c] by simp
  qed
  have cmp: "\<forall>x \<in> set entries. \<forall>y \<in> set entries. isPositive (?cmp x y) \<longleftrightarrow> ?f y < ?f x"
  proof (intro ballI)
    fix x y assume "x \<in> set entries" "y \<in> set entries"
    then show "isPositive (?cmp x y) \<longleftrightarrow> ?f y < ?f x"
      using sim [of x] sim [of y] by (intro jsSub_desc) simp_all
  qed
  have srt: "jsSort ?cmp entries = sort_key ?f entries"
    by (rule jsSort_sort_key [OF cmp])
  show ?thesis
  proof (intro exI conjI)
    show "list_all2 (\<lambda>c s. embedding s = embedding c \<and> er_text s = er_text c \<and>
                            chunkId s = chunkId c \<and>
                            cosineSimilarity q (embedding c) = Inr (similarity s))
                     chunkEmbeddings entries" by (rule la)
    show "\<forall>s \<in> set entries. similarity s \<noteq> NaN" using sim by blast
    show "out = slice (sort_key ?f entries) 0 topK" using out by (simp only: srt)
  qed
qed


section \<open>Retrieval on the example index\<close>

lemma scored_simps [simp]:
  "similarity (scored c v) = v" "embedding (scored c v) = embedding c"
  "er_text (scored c v) = er_text c" "chunkId (scored c v) = chunkId c"
  by (simp_all add: scored_def EmbeddingResult.extend_def ScoredChunk.fields_def)

lemma cos_orth: "cosineSimilarity [Fin 1, Fin 0] [Fin 0, Fin 1] = Inr (Fin 0)"
  by (simp add: cosineSimilarity_def cosineSums_def upt_rec)

lemma cos_aligned: "cosineSimilarity [Fin 1, Fin 0] [Fin 1, Fin 0] = Inr (Fin 1)"
  by (simp add: cosineSimilarity_def cosineSums_def upt_rec)

lemma cos_zero: "cosineSimilarity [Fin 1, Fin 0] [Fin 0, Fin 0] = Inr NaN"
  by (simp add: cosineSimilarity_def cosineSums_def upt_rec)

lemmas example_embs = embOrthogonal_def embAligned_def embAlignedToo_def embZero_def

lemma example_query:
  "runEmbeddingModel exampleEnv t = Inr [Fin 1, Fin 0]"
  "runEmbeddingModel otherEnv t = Inr [Fin 1, Fin 0]"
  "runEmbeddingModel qaFailingEnv t = Inr [Fin 1, Fin 0]"
  by (simp_all add: exampleEnv_def otherEnv_def qaFailingEnv_def)

lemma score_1:
  "scoreChunks [Fin 1, Fin 0] [embOrthogonal, embAligned, embAlignedToo] =
     Inr [scored embOrthogonal (Fin 0), scored embAligned (Fin 1), scored embAlignedToo (Fin 1)]"
  by (simp add: example_embs cos_orth cos_aligned)

lemma score_2:
  "scoreChunks [Fin 1, Fin 0] [embOrthogonal, embZero, embAligned] =
     Inr [scored embOrthogonal (Fin 0), scored embZero NaN, scored embAligned (Fin 1)]"
  by (simp add: example_embs cos_orth cos_aligned cos_zero)

lemma sort_1:
  "jsSort (\<lambda>a b. jsSub (similarity b) (similarity a))
     [scored embOrthogonal (Fin 0), scored embAligned (Fin 1), scored embAlignedToo (Fin 1)] =
   [scored embAligned (Fin 1), scored embAlignedToo (Fin 1), scored embOrthogonal (Fin 0)]"
  by (simp add: isPositive_def)

lemma sort_2:
  "jsSort (\<lambda>a b. jsSub (similarity b) (similarity a))
     [scored embOrthogonal (Fin 0), scored embZero NaN, scored embAligned (Fin 1)] =
   [scored embOrthogonal (Fin 0), scored embZero NaN, scored embAligned (Fin 1)]"
  by (simp add: isPositive_def)

lemma find_ready:
  assumes "runEmbeddingModel ev (searchQuery metric) = Inr q"
  shows "findRelevantChunks ev readyManager metric chunks topK =
     (case scoreChunks q chunks of
        Inl e \<Rightarrow> (Inl e, readyManager)
      | Inr similarities \<Rightarrow>
          (Inr (slice (jsSort (\<lambda>a b. jsSub (similarity b) (similarity a)) similarities) 0 topK),
           readyManager))"
  using assms
  by (simp add: findRelevantChunks_def initialize_def readyManager_def
        generateEmbedding_def split: sum.split)






section \<open>The extraction pipeline\<close>

lemma initialize_idem: "isInitialized m \<Longrightarrow> initialize ev m = (Inr (), m)"
  by (simp add: initialize_def)

lemma initialize_Inr:
  "initialize ev m = (Inr u, m1) \<Longrightarrow> isInitialized m1"
  by (auto simp: initialize_def Let_def split: if_splits option.splits)

lemma findRelevantChunks_state:
  "isInitialized m \<Longrightarrow> snd (findRelevantChunks ev m metric chunkEmbeddings topK) = m"
  by (simp add: findRelevantChunks_def initialize_idem split: sum.splits)

lemma parseMetricAnswer_value: "fst (parseMetricAnswer answer metric) \<noteq> None"
  by (simp add: parseMetricAnswer_def Let_def split: option.splits prod.splits)

lemma extractMetricValue_ready:
  assumes "isInitialized m"
  shows "\<exists>x. extractMetricValue ev m metric relevantChunks documentChunks = (Inr x, m) \<and>
             (trim (join [chNewline, chNewline] (map er_text relevantChunks)) = [] \<longrightarrow>
                x = \<lparr>metricId = m_id metric, x_value = None, units = None, confidence = 0,
                     evidenceChunk = None, evidenceSpan = None, isModelled = False,
                     explanation = Some (js ''No relevant context found'')\<rparr>) \<and>
             (\<forall>e. trim (join [chNewline, chNewline] (map er_text relevantChunks)) \<noteq> [] \<and>
                  extractAnswer ev m (generateQuestionForMetric metric)
                    (join [chNewline, chNewline] (map er_text relevantChunks)) = Inl e \<longrightarrow>
                x = \<lparr>metricId = m_id metric, x_value = None, units = None, confidence = 0,
                     evidenceChunk = None, evidenceSpan = None, isModelled = False,
                     explanation = Some (js ''Extraction failed: '' @ errorMessage e)\<rparr>) \<and>
             (\<forall>qaResult. trim (join [chNewline, chNewline] (map er_text relevantChunks)) \<noteq> [] \<and>
                  extractAnswer ev m (generateQuestionForMetric metric)
                    (join [chNewline, chNewline] (map er_text relevantChunks)) = Inr qaResult \<longrightarrow>
                metricId x = m_id metric \<and> x_value x \<noteq> None \<and>
                confidence x = qa_confidence qaResult \<and>
                evidenceSpan x = Some (qa_answer qaResult)) \<and>
             metricId x = m_id metric \<and> explanation x \<noteq> None \<and>
             (x_value x = None \<longrightarrow> confidence x = 0)"
proof -
  let ?ctx = "join [chNewline, chNewline] (map er_text relevantChunks)"
  show ?thesis
  proof (cases "trim ?ctx = []")
    case True
    then show ?thesis
      using assms by (simp add: extractMetricValue_def initialize_idem)
  next
    case False
    show ?thesis
    proof (cases "extractAnswer ev m (generateQuestionForMetric metric) ?ctx")
      case (Inl e)
      then show ?thesis
        using assms False
        by (simp add: extractMetricValue_def initialize_idem failedExtraction_def)
    next
      case (Inr qaResult)
      obtain v un where p: "parseMetricAnswer (qa_answer qaResult) metric = (v, un)"
        by (cases "parseMetricAnswer (qa_answer qaResult) metric")
      then have "v \<noteq> None"
        using parseMetricAnswer_value [of "qa_answer qaResult" metric] by simp
      then show ?thesis
        using assms False Inr p
        by (auto simp add: extractMetricValue_def initialize_idem)
    qed
  qed
qed

text \<open>One iteration of the loop, on an initialised manager and a callback call that
  returns.\<close>

lemma extractLoop_step:
  assumes m: "isInitialized m"
    and cb: "callProgress onProgress (m_label metric) (percentage i n) = None"
  shows "\<exists>x. extractLoop ev onProgress n chunkEmbeddings documentChunks m i (metric # rest) extracted =
               extractLoop ev onProgress n chunkEmbeddings documentChunks m (Suc i) rest (extracted @ [x]) \<and>
             slotOf ev m chunkEmbeddings documentChunks metric x \<and>
             metricId x = m_id metric \<and> explanation x \<noteq> None \<and>
             (x_value x = None \<longrightarrow> confidence x = 0)"
proof -
  obtain r m1 where f: "findRelevantChunks ev m metric chunkEmbeddings 3 = (r, m1)"
    by (cases "findRelevantChunks ev m metric chunkEmbeddings 3")
  have m1: "m1 = m"
    using findRelevantChunks_state [OF m, of ev metric chunkEmbeddings 3] f by simp
  show ?thesis
  proof (cases r)
    case (Inl e)
    show ?thesis
    proof (intro exI [of _ "failedExtraction metric e"] conjI)
      show "extractLoop ev onProgress n chunkEmbeddings documentChunks m i (metric # rest) extracted =
              extractLoop ev onProgress n chunkEmbeddings documentChunks m (Suc i) rest
                (extracted @ [failedExtraction metric e])"
        using f m1 cb Inl by simp
      show "slotOf ev m chunkEmbeddings documentChunks metric (failedExtraction metric e)"
        using f Inl by (simp add: slotOf_def failedExtraction_def)
    qed (simp_all add: failedExtraction_def)
  next
    case (Inr relevantChunks)
    obtain x where x: "extractMetricValue ev m metric relevantChunks documentChunks = (Inr x, m)"
      and noctx: "trim (join [chNewline, chNewline] (map er_text relevantChunks)) = [] \<longrightarrow>
                x = \<lparr>metricId = m_id metric, x_value = None, units = None, confidence = 0,
                     evidenceChunk = None, evidenceSpan = None, isModelled = False,
                     explanation = Some (js ''No relevant context found'')\<rparr>"
      and failed: "\<forall>e. trim (join [chNewline, chNewline] (map er_text relevantChunks)) \<noteq> [] \<and>
                  extractAnswer ev m (generateQuestionForMetric metric)
                    (join [chNewline, chNewline] (map er_text relevantChunks)) = Inl e \<longrightarrow>
                x = \<lparr>metricId = m_id metric, x_value = None, units = None, confidence = 0,
                     evidenceChunk = None, evidenceSpan = None, isModelled = False,
                     explanation = Some (js ''Extraction failed: '' @ errorMessage e)\<rparr>"
      and ok: "\<forall>qaResult. trim (join [chNewline, chNewline] (map er_text relevantChunks)) \<noteq> [] \<and>
                  extractAnswer ev m (generateQuestionForMetric metric)
                    (join [chNewline, chNewline] (map er_text relevantChunks)) = Inr qaResult \<longrightarrow>
                metricId x = m_id metric \<and> x_value x \<noteq> None \<and>
                confidence x = qa_confidence qaResult \<and>
                evidenceSpan x = Some (qa_answer qaResult)"
      and good: "metricId x = m_id metric \<and> explanation x \<noteq> None \<and>
             (x_value x = None \<longrightarrow> confidence x = 0)"
      using extractMetricValue_ready [OF m, of ev metric relevantChunks documentChunks]
      by (elim exE conjE) (rule that; (intro conjI)?; assumption)
    show ?thesis
    proof (intro exI [of _ x] conjI)
      show "extractLoop ev onProgress n chunkEmbeddings documentChunks m i (metric # rest) extracted =
              extractLoop ev onProgress n chunkEmbeddings documentChunks m (Suc i) rest (extracted @ [x])"
        using f m1 cb Inr x by simp
      show "slotOf ev m chunkEmbeddings documentChunks metric x"
        unfolding slotOf_def using f Inr x noctx failed ok by simp
    qed (use good in simp_all)
  qed
qed

lemma extractLoop_returns:
  assumes "isInitialized m"
    and "\<forall>k < length metrics.
           callProgress onProgress (m_label (metrics ! k)) (percentage (i + k) n) = None"
  shows "\<exists>ys. extractLoop ev onProgress n chunkEmbeddings documentChunks m i metrics extracted =
                 (Inr (extracted @ ys), m) \<and>
              list_all2 (slotOf ev m chunkEmbeddings documentChunks) metrics ys \<and>
              map metricId ys = map m_id metrics \<and>
              (\<forall>x \<in> set ys. explanation x \<noteq> None \<and> (x_value x = None \<longrightarrow> confidence x = 0))"
  using assms
proof (induction metrics arbitrary: i extracted)
  case Nil
  then show ?case by simp
next
  case (Cons metric rest)
  have cb: "callProgress onProgress (m_label metric) (percentage i n) = None"
    using Cons.prems(2) by fastforce
  obtain x where
    step: "extractLoop ev onProgress n chunkEmbeddings documentChunks m i (metric # rest) extracted =
             extractLoop ev onProgress n chunkEmbeddings documentChunks m (Suc i) rest (extracted @ [x])"
    and slot: "slotOf ev m chunkEmbeddings documentChunks metric x"
    and good: "metricId x = m_id metric" "explanation x \<noteq> None" "x_value x = None \<longrightarrow> confidence x = 0"
    using extractLoop_step [OF Cons.prems(1) cb, of ev chunkEmbeddings documentChunks rest extracted]
    by (elim exE conjE) (rule that; assumption)
  have rest: "\<forall>k < length rest.
           callProgress onProgress (m_label (rest ! k)) (percentage (Suc i + k) n) = None"
  proof (intro allI impI)
    fix k assume "k < length rest"
    then have "Suc k < length (metric # rest)" by simp
    then have "callProgress onProgress (m_label ((metric # rest) ! Suc k)) (percentage (i + Suc k) n) = None"
      using Cons.prems(2) by blast
    then show "callProgress onProgress (m_label (rest ! k)) (percentage (Suc i + k) n) = None"
      by simp
  qed
  obtain ys where
    ys: "extractLoop ev onProgress n chunkEmbeddings documentChunks m (Suc i) rest (extracted @ [x]) =
           (Inr ((extracted @ [x]) @ ys), m)"
    and slots: "list_all2 (slotOf ev m chunkEmbeddings documentChunks) rest ys"
    and ids: "map metricId ys = map m_id rest"
    and goods: "\<forall>x \<in> set ys. explanation x \<noteq> None \<and> (x_value x = None \<longrightarrow> confidence x = 0)"
    using Cons.IH [OF Cons.prems(1) rest, of "extracted @ [x]"]
    by (elim exE conjE) (rule that; assumption)
  show ?case
  proof (intro exI [of _ "x # ys"] conjI)
    show "extractLoop ev onProgress n chunkEmbeddings documentChunks m i (metric # rest) extracted =
            (Inr (extracted @ x # ys), m)"
      using step ys by simp
    show "list_all2 (slotOf ev m chunkEmbeddings documentChunks) (metric # rest) (x # ys)"
      using slot slots by simp
    show "map metricId (x # ys) = map m_id (metric # rest)"
      using good ids by simp
    show "\<forall>x \<in> set (x # ys). explanation x \<noteq> None \<and> (x_value x = None \<longrightarrow> confidence x = 0)"
      using good goods by simp
  qed
qed

text \<open>The first callback call that throws ends the loop with what it throws.\<close>

lemma extractLoop_throws:
  assumes "isInitialized m"
    and "k < length metrics"
    and "callProgress onProgress (m_label (metrics ! k)) (percentage (i + k) n) = Some e"
    and "\<forall>j < k. callProgress onProgress (m_label (metrics ! j)) (percentage (i + j) n) = None"
  shows "extractLoop ev onProgress n chunkEmbeddings documentChunks m i metrics extracted = (Inl e, m)"
  using assms
proof (induction metrics arbitrary: i k extracted)
  case Nil
  then show ?case by simp
next
  case (Cons metric rest)
  show ?case
  proof (cases k)
    case 0
    then show ?thesis using Cons.prems(3) by simp
  next
    case (Suc k')
    have cb: "callProgress onProgress (m_label metric) (percentage i n) = None"
      using Cons.prems(4) Suc by fastforce
    obtain x where
      step: "extractLoop ev onProgress n chunkEmbeddings documentChunks m i (metric # rest) extracted =
               extractLoop ev onProgress n chunkEmbeddings documentChunks m (Suc i) rest (extracted @ [x])"
      using extractLoop_step [OF Cons.prems(1) cb, of ev chunkEmbeddings documentChunks rest extracted]
      by (elim exE conjE) (rule that; assumption)
    have k': "k' < length rest" using Cons.prems(2) Suc by simp
    have thr: "callProgress onProgress (m_label (rest ! k')) (percentage (Suc i + k') n) = Some e"
      using Cons.prems(3) Suc by simp
    have before: "\<forall>j < k'. callProgress onProgress (m_label (rest ! j)) (percentage (Suc i + j) n) = None"
    proof (intro allI impI)
      fix j assume "j < k'"
      then have "Suc j < k" using Suc by simp
      then have "callProgress onProgress (m_label ((metric # rest) ! Suc j)) (percentage (i + Suc j) n) = None"
        using Cons.prems(4) by blast
      then show "callProgress onProgress (m_label (rest ! j)) (percentage (Suc i + j) n) = None"
        by simp
    qed
    show ?thesis
      using step Cons.IH [OF Cons.prems(1) k' thr before, of "extracted @ [x]"] by simp
  qed
qed

lemma priorityMetrics_sort_key:
  "priorityMetrics catalog = sort_key m_priority (filter (\<lambda>m. m_priority m \<le> 2) catalog)"
  unfolding priorityMetrics_def
proof (rule jsSort_sort_key, intro ballI)
  fix x y :: ESRSMetric
  have "isPositive (round64 (of_int (m_priority x) - of_int (m_priority y))) \<longleftrightarrow>
          (of_int (m_priority y) :: real) < of_int (m_priority x)"
    by (rule round64_diff_pos_iff) (rule onGrid_of_int)+
  then show "isPositive (jsSub (Fin (of_int (m_priority x))) (Fin (of_int (m_priority y)))) \<longleftrightarrow>
               m_priority y < m_priority x"
    by simp
qed

text \<open>
  C1, as the code has it. The outcome of \<open>extractAllMetrics\<close> on any chunk list, empty
  or not, is fixed by the initialisation of the models and by the progress callback.
  When \<open>initialize\<close> throws, the call raises what it throws. When the models are
  initialised and a call of the progress callback throws (the first such call, for the
  \<open>i\<close>-th selected metric), the call raises what the callback throws: the callback is
  called outside the \<open>try\<close> of the loop. When the models are initialised and no call of
  the callback throws, the call returns a result. Its extractions are, in order, one per
  selected metric, where the selected metrics are the catalog metrics with priority at
  most 2 in the stable order of their priorities; they have no duplicate when the
  catalog ids have none; \<open>totalChunks\<close> is the number of chunks; and the slot of each
  metric is as \<open>slotOf\<close> says: when a step of the extraction throws \<open>e\<close>, the slot has no
  value, no units and no evidence, confidence 0, and the explanation
  \<open>Extraction failed: \<close> followed by the message of \<open>e\<close>; when the retrieved context is
  blank, it has no value, confidence 0 and the explanation \<open>No relevant context found\<close>;
  otherwise it carries the answer and the score of the question-answering model.
\<close>

theorem extractAllMetrics_coverage:
  "(\<forall>e. fst (initialize ev m) = Inl e \<longrightarrow>
      fst (extractAllMetrics ev m catalog startTime endTime documentChunks onProgress) = Inl e) \<and>
   (\<forall>e i. fst (initialize ev m) = Inr () \<and> i < length (priorityMetrics catalog) \<and>
      callProgress onProgress (m_label (priorityMetrics catalog ! i))
        (percentage i (length (priorityMetrics catalog))) = Some e \<and>
      (\<forall>j < i. callProgress onProgress (m_label (priorityMetrics catalog ! j))
                 (percentage j (length (priorityMetrics catalog))) = None) \<longrightarrow>
      fst (extractAllMetrics ev m catalog startTime endTime documentChunks onProgress) = Inl e) \<and>
   (fst (initialize ev m) = Inr () \<and>
    (\<forall>i < length (priorityMetrics catalog).
       callProgress onProgress (m_label (priorityMetrics catalog ! i))
         (percentage i (length (priorityMetrics catalog))) = None) \<longrightarrow>
    (\<exists>res.
       fst (extractAllMetrics ev m catalog startTime endTime documentChunks onProgress) = Inr res \<and>
       map metricId (extractions res) = map m_id (priorityMetrics catalog) \<and>
       priorityMetrics catalog = sort_key m_priority (filter (\<lambda>m. m_priority m \<le> 2) catalog) \<and>
       (distinct (map m_id catalog) \<longrightarrow> distinct (map metricId (extractions res))) \<and>
       totalChunks res = length documentChunks \<and>
       list_all2 (slotOf ev (snd (initialize ev m))
                    (embedChunks ev (snd (initialize ev m)) documentChunks []) documentChunks)
                 (priorityMetrics catalog) (extractions res) \<and>
       (\<forall>x \<in> set (extractions res).
          explanation x \<noteq> None \<and> (x_value x = None \<longrightarrow> confidence x = 0))))"
proof (intro conjI allI impI)
  fix e assume "fst (initialize ev m) = Inl e"
  then show "fst (extractAllMetrics ev m catalog startTime endTime documentChunks onProgress) = Inl e"
    by (cases "initialize ev m") (simp add: extractAllMetrics_def generateChunkEmbeddings_def)
next
  fix e i
  assume h: "fst (initialize ev m) = Inr () \<and> i < length (priorityMetrics catalog) \<and>
      callProgress onProgress (m_label (priorityMetrics catalog ! i))
        (percentage i (length (priorityMetrics catalog))) = Some e \<and>
      (\<forall>j < i. callProgress onProgress (m_label (priorityMetrics catalog ! j))
                 (percentage j (length (priorityMetrics catalog))) = None)"
  obtain m1 where i: "initialize ev m = (Inr (), m1)"
    using h by (cases "initialize ev m") auto
  have m1: "isInitialized m1" by (rule initialize_Inr [OF i])
  have g: "generateChunkEmbeddings ev m documentChunks = (Inr (embedChunks ev m1 documentChunks []), m1)"
    by (simp add: generateChunkEmbeddings_def i)
  have "extractLoop ev onProgress (length (priorityMetrics catalog))
          (embedChunks ev m1 documentChunks []) documentChunks m1 0 (priorityMetrics catalog) [] =
            (Inl e, m1)"
    using h by (intro extractLoop_throws [OF m1, where k = i and i = 0]) simp_all
  then show "fst (extractAllMetrics ev m catalog startTime endTime documentChunks onProgress) = Inl e"
    by (simp add: extractAllMetrics_def g)
next
  assume h: "fst (initialize ev m) = Inr () \<and>
    (\<forall>i < length (priorityMetrics catalog).
       callProgress onProgress (m_label (priorityMetrics catalog ! i))
         (percentage i (length (priorityMetrics catalog))) = None)"
  obtain m1 where i: "initialize ev m = (Inr (), m1)"
    using h by (cases "initialize ev m") auto
  have m1: "isInitialized m1" by (rule initialize_Inr [OF i])
  have s: "snd (initialize ev m) = m1" by (simp add: i)
  have g: "generateChunkEmbeddings ev m documentChunks = (Inr (embedChunks ev m1 documentChunks []), m1)"
    by (simp add: generateChunkEmbeddings_def i)
  have cb: "\<forall>k < length (priorityMetrics catalog).
              callProgress onProgress (m_label (priorityMetrics catalog ! k))
                (percentage (0 + k) (length (priorityMetrics catalog))) = None"
    using h by simp
  obtain ys where
    ys: "extractLoop ev onProgress (length (priorityMetrics catalog))
           (embedChunks ev m1 documentChunks []) documentChunks m1 0 (priorityMetrics catalog) [] =
             (Inr ([] @ ys), m1)"
    and slots: "list_all2 (slotOf ev m1 (embedChunks ev m1 documentChunks []) documentChunks)
                  (priorityMetrics catalog) ys"
    and ids: "map metricId ys = map m_id (priorityMetrics catalog)"
    and goods: "\<forall>x \<in> set ys. explanation x \<noteq> None \<and> (x_value x = None \<longrightarrow> confidence x = 0)"
    using extractLoop_returns [OF m1 cb, of ev "embedChunks ev m1 documentChunks []" documentChunks "[]"]
    by (elim exE conjE) (rule that; assumption)
  let ?res = "\<lparr>extractions = ys, processingTime = endTime - startTime,
               totalChunks = length documentChunks\<rparr>"
  have r: "extractAllMetrics ev m catalog startTime endTime documentChunks onProgress = (Inr ?res, m1)"
    using ys by (simp add: extractAllMetrics_def g)
  have d: "distinct (map m_id catalog) \<longrightarrow> distinct (map metricId ys)"
  proof
    assume "distinct (map m_id catalog)"
    then have "distinct (map m_id (filter (\<lambda>m. m_priority m \<le> 2) catalog))"
      by (rule distinct_map_filter)
    moreover have "mset (map m_id (priorityMetrics catalog)) =
                   mset (map m_id (filter (\<lambda>m. m_priority m \<le> 2) catalog))"
      unfolding priorityMetrics_sort_key by simp
    ultimately have "distinct (map m_id (priorityMetrics catalog))"
      using mset_eq_imp_distinct_iff by blast
    then show "distinct (map metricId ys)" by (simp add: ids)
  qed
  show "\<exists>res.
       fst (extractAllMetrics ev m catalog startTime endTime documentChunks onProgress) = Inr res \<and>
       map metricId (extractions res) = map m_id (priorityMetrics catalog) \<and>
       priorityMetrics catalog = sort_key m_priority (filter (\<lambda>m. m_priority m \<le> 2) catalog) \<and>
       (distinct (map m_id catalog) \<longrightarrow> distinct (map metricId (extractions res))) \<and>
       totalChunks res = length documentChunks \<and>
       list_all2 (slotOf ev (snd (initialize ev m))
                    (embedChunks ev (snd (initialize ev m)) documentChunks []) documentChunks)
                 (priorityMetrics catalog) (extractions res) \<and>
       (\<forall>x \<in> set (extractions res).
          explanation x \<noteq> None \<and> (x_value x = None \<longrightarrow> confidence x = 0))"
  proof (intro exI [of _ ?res] conjI)
    show "fst (extractAllMetrics ev m catalog startTime endTime documentChunks onProgress) = Inr ?res"
      by (simp add: r)
    show "map metricId (extractions ?res) = map m_id (priorityMetrics catalog)"
      using ids by simp
    show "priorityMetrics catalog = sort_key m_priority (filter (\<lambda>m. m_priority m \<le> 2) catalog)"
      by (rule priorityMetrics_sort_key)
    show "distinct (map m_id catalog) \<longrightarrow> distinct (map metricId (extractions ?res))"
      using d by simp
    show "totalChunks ?res = length documentChunks" by simp
    show "list_all2 (slotOf ev (snd (initialize ev m))
                    (embedChunks ev (snd (initialize ev m)) documentChunks []) documentChunks)
                 (priorityMetrics catalog) (extractions ?res)"
      using slots by (simp add: s)
    show "\<forall>x \<in> set (extractions ?res).
            explanation x \<noteq> None \<and> (x_value x = None \<longrightarrow> confidence x = 0)"
      using goods by simp
  qed
qed

lemma priorityMetrics_example:
  "priorityMetrics [metricOther, metricE11] = [metricE11]"
  by (simp add: priorityMetrics_def metricOther_def metricE11_def)

lemma initialize_example:
  "initialize exampleEnv newManager = (Inr (), readyManager)"
  "initialize qaFailingEnv newManager = (Inr (), readyManager)"
  "initialize failingEnv newManager = (Inl (Error (js ''Failed to fetch'')), newManager)"
  by (simp_all add: initialize_def newManager_def readyManager_def exampleEnv_def qaFailingEnv_def
        failingEnv_def)

lemma embedChunks_example:
  "embedChunks qaFailingEnv readyManager [docScope, docWater] [] =
     [embAligned, \<lparr>embedding = [Fin 1, Fin 0], er_text = dc_text docWater, chunkId = dc_id docWater\<rparr>]"
  by (simp add: generateEmbedding_def readyManager_def example_query embAligned_def)

lemma find_example:
  "findRelevantChunks qaFailingEnv readyManager metricE11
     [embAligned, \<lparr>embedding = [Fin 1, Fin 0], er_text = dc_text docWater, chunkId = dc_id docWater\<rparr>] 3 =
   (Inr [scored embAligned (Fin 1),
         scored \<lparr>embedding = [Fin 1, Fin 0], er_text = dc_text docWater, chunkId = dc_id docWater\<rparr> (Fin 1)],
    readyManager)"
  by (simp add: find_ready [OF example_query(3)] embAligned_def cos_aligned isPositive_def
        slice_def sliceIndex_def)

lemma extractAnswer_qaFailing:
  "extractAnswer qaFailingEnv readyManager question ctx = Inl (Error (js ''QA failed''))"
  by (simp add: extractAnswer_def qaFailingEnv_def readyManager_def)

lemma context_example:
  "trim (join [chNewline, chNewline]
       (map er_text [scored embAligned (Fin 1),
          scored \<lparr>embedding = [Fin 1, Fin 0], er_text = dc_text docWater, chunkId = dc_id docWater\<rparr> (Fin 1)]))
     \<noteq> []"
  by (simp add: embAligned_def docScope_def docWater_def js_def trim_def isSpace_def chNewline_def)

text \<open>
  The theorem at a catalog of two metrics, one of priority 3 and one of priority 1,
  and two chunks: in a run whose question-answering model throws, the one selected
  metric has the failure object in its slot; in a run whose embedding model cannot be
  loaded, the call raises.
\<close>

theorem extractAllMetrics_coverage_witness:
  "(\<exists>res. fst (extractAllMetrics qaFailingEnv newManager [metricOther, metricE11] 1000 1250
                 [docScope, docWater] None) = Inr res \<and>
      extractions res =
        [\<lparr>metricId = js ''E1-1'', x_value = None, units = None, confidence = 0,
          evidenceChunk = None, evidenceSpan = None, isModelled = False,
          explanation = Some (js ''Extraction failed: QA failed'')\<rparr>] \<and>
      totalChunks res = 2) \<and>
   fst (extractAllMetrics failingEnv newManager [metricOther, metricE11] 1000 1250
          [docScope, docWater] None) = Inl (Error (js ''Failed to fetch''))"
proof
  note t = extractAllMetrics_coverage [of qaFailingEnv newManager "[metricOther, metricE11]" 1000 1250
      "[docScope, docWater]" None]
  have h: "fst (initialize qaFailingEnv newManager) = Inr () \<and>
    (\<forall>i < length (priorityMetrics [metricOther, metricE11]).
       callProgress None (m_label (priorityMetrics [metricOther, metricE11] ! i))
         (percentage i (length (priorityMetrics [metricOther, metricE11]))) = None)"
    by (simp add: initialize_example callProgress_def)
  from conjunct2 [OF conjunct2 [OF t], THEN mp, OF h] obtain res where
    r: "fst (extractAllMetrics qaFailingEnv newManager [metricOther, metricE11] 1000 1250
              [docScope, docWater] None) = Inr res"
    and n: "totalChunks res = length [docScope, docWater]"
    and slots: "list_all2 (slotOf qaFailingEnv (snd (initialize qaFailingEnv newManager))
                    (embedChunks qaFailingEnv (snd (initialize qaFailingEnv newManager))
                       [docScope, docWater] []) [docScope, docWater])
                 (priorityMetrics [metricOther, metricE11]) (extractions res)"
    by (elim exE conjE) (rule that; assumption)
  have "list_all2 (slotOf qaFailingEnv readyManager
                    [embAligned, \<lparr>embedding = [Fin 1, Fin 0], er_text = dc_text docWater, chunkId = dc_id docWater\<rparr>]
                    [docScope, docWater])
                 [metricE11] (extractions res)"
    using slots by (simp only: initialize_example snd_conv priorityMetrics_example embedChunks_example)
  then obtain x where x: "extractions res = [x]"
    and slot: "slotOf qaFailingEnv readyManager
                 [embAligned, \<lparr>embedding = [Fin 1, Fin 0], er_text = dc_text docWater, chunkId = dc_id docWater\<rparr>]
                 [docScope, docWater] metricE11 x"
    by (auto simp add: list_all2_Cons1)
  have "x = \<lparr>metricId = m_id metricE11, x_value = None, units = None, confidence = 0,
             evidenceChunk = None, evidenceSpan = None, isModelled = False,
             explanation = Some (js ''Extraction failed: '' @ errorMessage (Error (js ''QA failed'')))\<rparr>"
    using slot context_example unfolding slotOf_def
    by (simp add: find_example extractAnswer_qaFailing del: join.simps list.map)
  then have "x = \<lparr>metricId = js ''E1-1'', x_value = None, units = None, confidence = 0,
          evidenceChunk = None, evidenceSpan = None, isModelled = False,
          explanation = Some (js ''Extraction failed: QA failed'')\<rparr>"
    by (simp add: metricE11_def js_def)
  then show "\<exists>res. fst (extractAllMetrics qaFailingEnv newManager [metricOther, metricE11] 1000 1250
                 [docScope, docWater] None) = Inr res \<and>
      extractions res =
        [\<lparr>metricId = js ''E1-1'', x_value = None, units = None, confidence = 0,
          evidenceChunk = None, evidenceSpan = None, isModelled = False,
          explanation = Some (js ''Extraction failed: QA failed'')\<rparr>] \<and>
      totalChunks res = 2"
    using r x n by (intro exI [of _ res]) simp
next
  have "fst (initialize failingEnv newManager) = Inl (Error (js ''Failed to fetch''))"
    by (simp add: initialize_example)
  then show "fst (extractAllMetrics failingEnv newManager [metricOther, metricE11] 1000 1250
          [docScope, docWater] None) = Inl (Error (js ''Failed to fetch''))"
    using extractAllMetrics_coverage [of failingEnv newManager "[metricOther, metricE11]" 1000 1250
      "[docScope, docWater]" None]
    by blast
qed

text \<open>
  C1, as the claim states it, fails when the progress callback throws. Both models
  load, the chunk list is not empty, and the callback throws at its first call in the
  loop, which is outside the \<open>try\<close>: \<open>extractAllMetrics\<close> raises what the callback threw
  instead of returning a result.
\<close>

theorem extractAllMetrics_raises_counterexample:
  "[docScope, docWater] \<noteq> [] \<and>
   fst (initialize exampleEnv newManager) = Inr () \<and>
   fst (extractAllMetrics exampleEnv newManager [metricOther, metricE11] 1000 1250
          [docScope, docWater] throwingProgress) = Inl (Error (js ''progress failed''))"
  by (simp add: extractAllMetrics_def generateChunkEmbeddings_def initialize_example
        priorityMetrics_example throwingProgress_def callProgress_def)

section \<open>Evidence attribution\<close>

lemma find_member: "find P xs = Some c \<Longrightarrow> c \<in> set xs"
  by (auto simp: find_Some_iff)

lemma findContaining_Some:
  "findContaining answer documentChunks relevantChunks = Some c \<Longrightarrow>
   c \<in> set documentChunks \<and> str_includes (dc_text c) answer"
proof (induction relevantChunks)
  case Nil
  then show ?case by simp
next
  case (Cons r rs)
  show ?case
  proof (cases "find (\<lambda>chunk. dc_id chunk = chunkId r) documentChunks")
    case None
    then show ?thesis using Cons by simp
  next
    case (Some sc)
    then show ?thesis
      using Cons find_member [OF Some] by (cases "str_includes (dc_text sc) answer") auto
  qed
qed

lemma findContaining_None:
  assumes "\<forall>r \<in> set relevantChunks. \<forall>c. find (\<lambda>chunk. dc_id chunk = chunkId r) documentChunks = Some c
              \<longrightarrow> \<not> str_includes (dc_text c) answer"
  shows "findContaining answer documentChunks relevantChunks = None"
  using assms by (induction relevantChunks) (auto split: option.splits)

lemma findEvidenceChunk_member:
  "findEvidenceChunk answer documentChunks relevantChunks = Some c \<Longrightarrow> c \<in> set documentChunks"
  by (auto simp: findEvidenceChunk_def split: option.splits list.splits
           dest: findContaining_Some find_member)

lemma find_Some_id:
  "find (\<lambda>chunk. dc_id chunk = k) documentChunks = Some c \<Longrightarrow> c \<in> set documentChunks \<and> dc_id c = k"
  by (auto simp: find_Some_iff)

lemma trim_Nil [simp]: "trim [] = []"
  by (simp add: trim_def)

lemma extractMetricValue_evidence:
  assumes "extractMetricValue ev m metric relevantChunks documentChunks = (Inr x, m')"
  shows "(evidenceChunk x = None \<and> evidenceSpan x = None) \<or>
         (\<exists>a. evidenceSpan x = Some a \<and> relevantChunks \<noteq> [] \<and>
              evidenceChunk x = findEvidenceChunk a documentChunks relevantChunks)"
proof -
  let ?ctx = "join [chNewline, chNewline] (map er_text relevantChunks)"
  obtain r1 m1 where i: "initialize ev m = (r1, m1)" by (cases "initialize ev m")
  show ?thesis
  proof (cases r1)
    case (Inl e)
    then show ?thesis using assms i by (simp add: extractMetricValue_def)
  next
    case u: (Inr u)
    show ?thesis
    proof (cases "length (trim ?ctx) = 0")
      case True
      then show ?thesis
        using assms i u by (auto simp: extractMetricValue_def)
    next
      case False
      then have ne: "relevantChunks \<noteq> []" by auto
      show ?thesis
      proof (cases "extractAnswer ev m1 (generateQuestionForMetric metric) ?ctx")
        case (Inl e)
        then show ?thesis
          using assms i u False
          by (auto simp: extractMetricValue_def failedExtraction_def)
      next
        case (Inr qaResult)
        obtain v un where p: "parseMetricAnswer (qa_answer qaResult) metric = (v, un)"
          by (cases "parseMetricAnswer (qa_answer qaResult) metric")
        show ?thesis
          using assms i u False Inr p ne
          by (auto simp: extractMetricValue_def)
      qed
    qed
  qed
qed

lemma slice_0_Cons: "slice xs 0 k = y # ys \<Longrightarrow> \<exists>zs. xs = y # zs"
  by (cases xs) (auto simp: slice_def sliceIndex_def Let_def take_Cons' split: if_splits)

lemma findRelevantChunks_first:
  assumes ret: "fst (findRelevantChunks ev m metric chunkEmbeddings topK) = Inr (first # rest)"
    and q: "runEmbeddingModel ev (searchQuery metric) = Inr q"
    and nonan: "\<forall>c \<in> set chunkEmbeddings. cosineSimilarity q (embedding c) \<noteq> Inr NaN"
  shows "mostSimilar q chunkEmbeddings first"
proof -
  let ?f = "\<lambda>s :: ScoredChunk. descKey (similarity s)"
  obtain m' where r: "findRelevantChunks ev m metric chunkEmbeddings topK = (Inr (first # rest), m')"
    using ret by (cases "findRelevantChunks ev m metric chunkEmbeddings topK") auto
  obtain entries where la: "list_all2 (\<lambda>c s. embedding s = embedding c \<and> er_text s = er_text c \<and>
                            chunkId s = chunkId c \<and>
                            cosineSimilarity q (embedding c) = Inr (similarity s))
                     chunkEmbeddings entries"
    and fin: "\<forall>s \<in> set entries. similarity s \<noteq> NaN"
    and out: "first # rest = slice (sort_key ?f entries) 0 topK"
    using findRelevantChunks_sort_key [OF r q nonan] by (elim exE conjE) (rule that; assumption)
  have len: "length entries = length chunkEmbeddings"
    using la by (simp add: list_all2_lengthD)
  obtain zs where zs: "sort_key ?f entries = first # zs"
    using slice_0_Cons [OF out [symmetric]] ..
  have "set (sort_key ?f entries) = set entries" by simp
  then have set: "set entries = insert first (set zs)" by (simp add: zs)
  have "sorted (map ?f (first # zs))"
    using sorted_sort_key [of ?f entries] by (simp only: zs)
  then have "\<forall>z \<in> set zs. ?f first \<le> ?f z" by simp
  then have le: "\<forall>s \<in> set entries. ?f first \<le> ?f s" by (simp add: set)
  have ge: "jsGe (similarity first) (similarity s)" if sin: "s \<in> set entries" for s
  proof -
    have "first \<in> set entries" by (simp add: set)
    then have "similarity first \<noteq> NaN" using fin by blast
    moreover have "similarity s \<noteq> NaN" using fin sin by blast
    ultimately have "similarity first \<noteq> NaN" "similarity s \<noteq> NaN" by simp_all
    then show ?thesis using le sin by (simp add: descKey_le [symmetric])
  qed
  have one: "\<exists>c \<in> set chunkEmbeddings.
               chunkId c = chunkId first \<and> cosineSimilarity q (embedding c) = Inr (similarity first)"
  proof -
    have "first \<in> set entries" by (simp add: set)
    then obtain i where i: "i < length entries" "entries ! i = first"
      by (auto simp: in_set_conv_nth)
    have "chunkId first = chunkId (chunkEmbeddings ! i) \<and>
          cosineSimilarity q (embedding (chunkEmbeddings ! i)) = Inr (similarity first)"
      using la i by (auto simp: list_all2_conv_all_nth)
    moreover have "chunkEmbeddings ! i \<in> set chunkEmbeddings"
      using i len by simp
    ultimately show ?thesis by force
  qed
  have all: "\<forall>c \<in> set chunkEmbeddings.
               \<exists>v. cosineSimilarity q (embedding c) = Inr v \<and> jsGe (similarity first) v"
  proof
    fix c assume "c \<in> set chunkEmbeddings"
    then obtain i where i: "i < length chunkEmbeddings" "chunkEmbeddings ! i = c"
      by (auto simp: in_set_conv_nth)
    have "cosineSimilarity q (embedding c) = Inr (similarity (entries ! i))"
      using la i by (auto simp: list_all2_conv_all_nth)
    moreover have "jsGe (similarity first) (similarity (entries ! i))"
      using i len by (intro ge) simp
    ultimately show "\<exists>v. cosineSimilarity q (embedding c) = Inr v \<and> jsGe (similarity first) v"
      by blast
  qed
  show ?thesis unfolding mostSimilar_def using one all by (rule conjI)
qed

text \<open>
  C8, as the code has it. Whenever an extraction returned by \<open>extractMetricValue\<close> has an
  evidence chunk, that chunk is one of the document chunks passed to the call. And when
  no retrieved chunk's text contains the answer of the question-answering model (the
  extraction's \<open>evidenceSpan\<close>), the evidence chunk is the document chunk found for the id
  of the first retrieved entry; when the retrieved entries are those returned by
  \<open>findRelevantChunks\<close> for an index in which no cosine similarity with the query
  embedding is NaN, that first entry is the most similar one: no indexed entry has a
  greater similarity. The text of a retrieved chunk is read in both possible ways: as
  the text of the document chunks with the entry's id, and as the text the entry itself
  carries when that is the text of those document chunks, as it is in a run.
\<close>

theorem evidenceChunk_from_documentChunks:
  assumes "extractMetricValue ev m metric relevantChunks documentChunks = (Inr x, m')"
  shows "(\<forall>c. evidenceChunk x = Some c \<longrightarrow> c \<in> set documentChunks) \<and>
         (\<forall>answer.
            evidenceSpan x = Some answer \<and>
            (\<forall>r \<in> set relevantChunks. \<forall>c \<in> set documentChunks.
               dc_id c = chunkId r \<longrightarrow> \<not> str_includes (dc_text c) answer) \<longrightarrow>
            (\<exists>first rest. relevantChunks = first # rest \<and>
               evidenceChunk x = find (\<lambda>chunk. dc_id chunk = chunkId first) documentChunks \<and>
               (\<forall>m0 chunkEmbeddings topK q.
                  fst (findRelevantChunks ev m0 metric chunkEmbeddings topK) = Inr relevantChunks \<and>
                  runEmbeddingModel ev (searchQuery metric) = Inr q \<and>
                  (\<forall>c \<in> set chunkEmbeddings. cosineSimilarity q (embedding c) \<noteq> Inr NaN) \<longrightarrow>
                  mostSimilar q chunkEmbeddings first))) \<and>
         (\<forall>answer.
            evidenceSpan x = Some answer \<and>
            (\<forall>r \<in> set relevantChunks. \<forall>c \<in> set documentChunks.
               dc_id c = chunkId r \<longrightarrow> dc_text c = er_text r) \<and>
            (\<forall>r \<in> set relevantChunks. \<not> str_includes (er_text r) answer) \<longrightarrow>
            (\<exists>first rest. relevantChunks = first # rest \<and>
               evidenceChunk x = find (\<lambda>chunk. dc_id chunk = chunkId first) documentChunks \<and>
               (\<forall>m0 chunkEmbeddings topK q.
                  fst (findRelevantChunks ev m0 metric chunkEmbeddings topK) = Inr relevantChunks \<and>
                  runEmbeddingModel ev (searchQuery metric) = Inr q \<and>
                  (\<forall>c \<in> set chunkEmbeddings. cosineSimilarity q (embedding c) \<noteq> Inr NaN) \<longrightarrow>
                  mostSimilar q chunkEmbeddings first)))"
proof -
  note ev = extractMetricValue_evidence [OF assms]
  have fallback:
    "\<exists>first rest. relevantChunks = first # rest \<and>
        evidenceChunk x = find (\<lambda>chunk. dc_id chunk = chunkId first) documentChunks \<and>
        (\<forall>m0 chunkEmbeddings topK q.
           fst (findRelevantChunks ev m0 metric chunkEmbeddings topK) = Inr relevantChunks \<and>
           runEmbeddingModel ev (searchQuery metric) = Inr q \<and>
           (\<forall>c \<in> set chunkEmbeddings. cosineSimilarity q (embedding c) \<noteq> Inr NaN) \<longrightarrow>
           mostSimilar q chunkEmbeddings first)"
    if span: "evidenceSpan x = Some answer"
      and none: "\<forall>r \<in> set relevantChunks. \<forall>c. find (\<lambda>chunk. dc_id chunk = chunkId r) documentChunks = Some c
                   \<longrightarrow> \<not> str_includes (dc_text c) answer"
    for answer
  proof -
    from ev span have ne: "relevantChunks \<noteq> []"
      and e: "evidenceChunk x = findEvidenceChunk answer documentChunks relevantChunks"
      by auto
    obtain first rest where fr: "relevantChunks = first # rest"
      using ne by (cases relevantChunks) auto
    have "findContaining answer documentChunks relevantChunks = None"
      by (rule findContaining_None [OF none])
    then have f: "evidenceChunk x = find (\<lambda>chunk. dc_id chunk = chunkId first) documentChunks"
      using e fr by (simp add: findEvidenceChunk_def)
    have most: "mostSimilar q chunkEmbeddings first"
      if h: "fst (findRelevantChunks ev m0 metric chunkEmbeddings topK) = Inr relevantChunks \<and>
             runEmbeddingModel ev (searchQuery metric) = Inr q \<and>
             (\<forall>c \<in> set chunkEmbeddings. cosineSimilarity q (embedding c) \<noteq> Inr NaN)"
      for m0 chunkEmbeddings topK q
    proof (rule findRelevantChunks_first)
      show "fst (findRelevantChunks ev m0 metric chunkEmbeddings topK) = Inr (first # rest)"
        using h fr by simp
      show "runEmbeddingModel ev (searchQuery metric) = Inr q" using h by simp
      show "\<forall>c \<in> set chunkEmbeddings. cosineSimilarity q (embedding c) \<noteq> Inr NaN"
        using h by simp
    qed
    show ?thesis
    proof (intro exI [of _ first] exI [of _ rest] conjI allI impI)
      show "relevantChunks = first # rest" by (rule fr)
      show "evidenceChunk x = find (\<lambda>chunk. dc_id chunk = chunkId first) documentChunks" by (rule f)
      show "mostSimilar q chunkEmbeddings first"
        if "fst (findRelevantChunks ev m0 metric chunkEmbeddings topK) = Inr relevantChunks \<and>
             runEmbeddingModel ev (searchQuery metric) = Inr q \<and>
             (\<forall>c \<in> set chunkEmbeddings. cosineSimilarity q (embedding c) \<noteq> Inr NaN)"
        for m0 chunkEmbeddings topK q
        using that by (rule most)
    qed
  qed
  have 1: "\<forall>c. evidenceChunk x = Some c \<longrightarrow> c \<in> set documentChunks"
    using ev by (auto dest: findEvidenceChunk_member)
  show ?thesis
  proof (intro conjI allI impI)
    fix c assume "evidenceChunk x = Some c"
    then show "c \<in> set documentChunks" using 1 by simp
  next
    fix answer
    assume h: "evidenceSpan x = Some answer \<and>
        (\<forall>r \<in> set relevantChunks. \<forall>c \<in> set documentChunks.
           dc_id c = chunkId r \<longrightarrow> \<not> str_includes (dc_text c) answer)"
    show "\<exists>first rest. relevantChunks = first # rest \<and>
        evidenceChunk x = find (\<lambda>chunk. dc_id chunk = chunkId first) documentChunks \<and>
        (\<forall>m0 chunkEmbeddings topK q.
           fst (findRelevantChunks ev m0 metric chunkEmbeddings topK) = Inr relevantChunks \<and>
           runEmbeddingModel ev (searchQuery metric) = Inr q \<and>
           (\<forall>c \<in> set chunkEmbeddings. cosineSimilarity q (embedding c) \<noteq> Inr NaN) \<longrightarrow>
           mostSimilar q chunkEmbeddings first)"
    proof (rule fallback)
      show "evidenceSpan x = Some answer" using h by simp
      show "\<forall>r \<in> set relevantChunks. \<forall>c. find (\<lambda>chunk. dc_id chunk = chunkId r) documentChunks = Some c
               \<longrightarrow> \<not> str_includes (dc_text c) answer"
        using h by (metis find_Some_id)
    qed
  next
    fix answer
    assume h: "evidenceSpan x = Some answer \<and>
        (\<forall>r \<in> set relevantChunks. \<forall>c \<in> set documentChunks.
           dc_id c = chunkId r \<longrightarrow> dc_text c = er_text r) \<and>
        (\<forall>r \<in> set relevantChunks. \<not> str_includes (er_text r) answer)"
    show "\<exists>first rest. relevantChunks = first # rest \<and>
        evidenceChunk x = find (\<lambda>chunk. dc_id chunk = chunkId first) documentChunks \<and>
        (\<forall>m0 chunkEmbeddings topK q.
           fst (findRelevantChunks ev m0 metric chunkEmbeddings topK) = Inr relevantChunks \<and>
           runEmbeddingModel ev (searchQuery metric) = Inr q \<and>
           (\<forall>c \<in> set chunkEmbeddings. cosineSimilarity q (embedding c) \<noteq> Inr NaN) \<longrightarrow>
           mostSimilar q chunkEmbeddings first)"
    proof (rule fallback)
      show "evidenceSpan x = Some answer" using h by simp
      show "\<forall>r \<in> set relevantChunks. \<forall>c. find (\<lambda>chunk. dc_id chunk = chunkId r) documentChunks = Some c
               \<longrightarrow> \<not> str_includes (dc_text c) answer"
        using h by (metis find_Some_id)
    qed
  qed
qed

lemma extractAnswer_other:
  "extractAnswer otherEnv readyManager question ctx =
     Inr \<lparr>qa_answer = js ''1250 tonnes'', qa_confidence = 1 / 2, qa_start = 33, qa_end = 44\<rparr>"
  by (simp add: extractAnswer_def otherEnv_def exampleEnv_def exampleAnswer_def readyManager_def
        orString_def orNumber_def js_def)

lemma extractMetricValue_other:
  assumes "trim (join [chNewline, chNewline] (map er_text relevantChunks)) \<noteq> []"
  shows "\<exists>x. extractMetricValue otherEnv readyManager metricE11 relevantChunks documentChunks =
               (Inr x, readyManager) \<and>
             evidenceSpan x = Some (js ''1250 tonnes'') \<and>
             evidenceChunk x = findEvidenceChunk (js ''1250 tonnes'') documentChunks relevantChunks"
proof -
  obtain v un where p: "parseMetricAnswer (js ''1250 tonnes'') metricE11 = (v, un)"
    by (cases "parseMetricAnswer (js ''1250 tonnes'') metricE11")
  have i: "initialize otherEnv readyManager = (Inr (), readyManager)"
    by (simp add: initialize_def readyManager_def)
  show ?thesis
    using assms
    by (simp add: extractMetricValue_def i extractAnswer_other p del: join.simps list.map)
qed

lemma find_4:
  "findRelevantChunks otherEnv readyManager metricE11 [embOrthogonal, embAligned, embAlignedToo] 3 =
     (Inr [scored embAligned (Fin 1), scored embAlignedToo (Fin 1), scored embOrthogonal (Fin 0)],
      readyManager)"
  by (simp add: find_ready [OF example_query(2)] score_1 sort_1 slice_def sliceIndex_def
           del: scoreChunks.simps jsSort.simps)

lemma find_5:
  "findRelevantChunks otherEnv readyManager metricE11 [embOrthogonal, embZero, embAligned] 3 =
     (Inr [scored embOrthogonal (Fin 0), scored embZero NaN, scored embAligned (Fin 1)], readyManager)"
  by (simp add: find_ready [OF example_query(2)] score_2 sort_2 slice_def sliceIndex_def
           del: scoreChunks.simps jsSort.simps)

lemma context_4:
  "trim (join [chNewline, chNewline]
      (map er_text [scored embAligned (Fin 1), scored embAlignedToo (Fin 1), scored embOrthogonal (Fin 0)]))
     \<noteq> []"
  by (simp add: example_embs docScope_def js_def trim_def isSpace_def chNewline_def)

lemma context_5:
  "trim (join [chNewline, chNewline]
      (map er_text [scored embOrthogonal (Fin 0), scored embZero NaN, scored embAligned (Fin 1)]))
     \<noteq> []"
  by (simp add: example_embs docWater_def js_def trim_def isSpace_def chNewline_def)

lemma no_chunk_contains:
  "\<not> str_includes (dc_text docScope) (js ''1250 tonnes'')"
  "\<not> str_includes (dc_text docWater) (js ''1250 tonnes'')"
  "\<not> str_includes (dc_text docBlank) (js ''1250 tonnes'')"
  by (simp_all add: docScope_def docWater_def docBlank_def js_def)

lemma example_ids:
  "dc_id docScope \<noteq> dc_id docWater" "dc_id docWater \<noteq> dc_id docScope"
  "dc_id docScope \<noteq> dc_id docBlank" "dc_id docBlank \<noteq> dc_id docScope"
  "dc_id docWater \<noteq> dc_id docBlank" "dc_id docBlank \<noteq> dc_id docWater"
  "chunkId embAligned = dc_id docScope" "chunkId embOrthogonal = dc_id docWater"
  "chunkId embZero = dc_id docBlank"
  "chunkId embAlignedToo \<noteq> dc_id docScope" "chunkId embAlignedToo \<noteq> dc_id docWater"
  "chunkId embAlignedToo \<noteq> dc_id docBlank"
  by (simp_all add: example_embs docScope_def docWater_def docBlank_def js_def)

text \<open>
  The theorem at an index of three entries with similarities 0, 1 and 1, all three
  retrieved, and an answer that occurs in no chunk: the evidence chunk is the chunk of
  the first retrieved entry, whose similarity 1 is the greatest in the index.
\<close>

theorem evidenceChunk_from_documentChunks_witness:
  "fst (findRelevantChunks otherEnv readyManager metricE11
          [embOrthogonal, embAligned, embAlignedToo] 3) =
     Inr [scored embAligned (Fin 1), scored embAlignedToo (Fin 1), scored embOrthogonal (Fin 0)] \<and>
   (\<exists>x. extractMetricValue otherEnv readyManager metricE11
           [scored embAligned (Fin 1), scored embAlignedToo (Fin 1), scored embOrthogonal (Fin 0)]
           [docWater, docScope] = (Inr x, readyManager) \<and>
        evidenceSpan x = Some (js ''1250 tonnes'') \<and>
        evidenceChunk x = Some docScope \<and> docScope \<in> set [docWater, docScope]) \<and>
   list_all (\<lambda>c. \<exists>v. cosineSimilarity [Fin 1, Fin 0] (embedding c) = Inr v \<and> jsGe (Fin 1) v)
     [embOrthogonal, embAligned, embAlignedToo]"
proof -
  let ?rel = "[scored embAligned (Fin 1), scored embAlignedToo (Fin 1), scored embOrthogonal (Fin 0)]"
  obtain x where x: "extractMetricValue otherEnv readyManager metricE11 ?rel [docWater, docScope] =
                       (Inr x, readyManager)"
    and span: "evidenceSpan x = Some (js ''1250 tonnes'')"
    using extractMetricValue_other [OF context_4, of "[docWater, docScope]"]
    by (elim exE conjE) (rule that; assumption)
  have none: "evidenceSpan x = Some (js ''1250 tonnes'') \<and>
              (\<forall>r \<in> set ?rel. \<forall>c \<in> set [docWater, docScope].
                 dc_id c = chunkId r \<longrightarrow> \<not> str_includes (dc_text c) (js ''1250 tonnes''))"
    using span by (simp add: no_chunk_contains)
  note t = evidenceChunk_from_documentChunks [OF x]
  from conjunct1 [OF conjunct2 [OF t], rule_format, OF none]
  obtain first rest where fr: "?rel = first # rest"
    and e: "evidenceChunk x = find (\<lambda>chunk. dc_id chunk = chunkId first) [docWater, docScope]"
    and most: "\<forall>m0 chunkEmbeddings topK q.
                 fst (findRelevantChunks otherEnv m0 metricE11 chunkEmbeddings topK) = Inr ?rel \<and>
                 runEmbeddingModel otherEnv (searchQuery metricE11) = Inr q \<and>
                 (\<forall>c \<in> set chunkEmbeddings. cosineSimilarity q (embedding c) \<noteq> Inr NaN) \<longrightarrow>
                 mostSimilar q chunkEmbeddings first"
    by (elim exE conjE) (rule that; assumption)
  have first: "first = scored embAligned (Fin 1)" using fr by simp
  have "evidenceChunk x = find (\<lambda>chunk. dc_id chunk = chunkId embAligned) [docWater, docScope]"
    using e by (simp add: first)
  also have "\<dots> = Some docScope"
    by (simp add: example_ids)
  finally have ec: "evidenceChunk x = Some docScope" .
  have h: "fst (findRelevantChunks otherEnv readyManager metricE11
                  [embOrthogonal, embAligned, embAlignedToo] 3) = Inr ?rel \<and>
           runEmbeddingModel otherEnv (searchQuery metricE11) = Inr [Fin 1, Fin 0] \<and>
           (\<forall>c \<in> set [embOrthogonal, embAligned, embAlignedToo].
              cosineSimilarity [Fin 1, Fin 0] (embedding c) \<noteq> Inr NaN)"
    by (simp add: find_4 example_query) (simp add: example_embs cos_orth cos_aligned)
  have "mostSimilar [Fin 1, Fin 0] [embOrthogonal, embAligned, embAlignedToo] first"
    using most h by blast
  then have all: "list_all (\<lambda>c. \<exists>v. cosineSimilarity [Fin 1, Fin 0] (embedding c) = Inr v \<and> jsGe (Fin 1) v)
                    [embOrthogonal, embAligned, embAlignedToo]"
    unfolding mostSimilar_def by (simp add: first list_all_iff)
  show ?thesis
  proof (intro conjI)
    show "fst (findRelevantChunks otherEnv readyManager metricE11
            [embOrthogonal, embAligned, embAlignedToo] 3) = Inr ?rel"
      by (simp add: find_4)
    show "\<exists>x. extractMetricValue otherEnv readyManager metricE11 ?rel [docWater, docScope] =
                 (Inr x, readyManager) \<and>
             evidenceSpan x = Some (js ''1250 tonnes'') \<and>
             evidenceChunk x = Some docScope \<and> docScope \<in> set [docWater, docScope]"
      using x span ec by (intro exI [of _ x]) simp
    show "list_all (\<lambda>c. \<exists>v. cosineSimilarity [Fin 1, Fin 0] (embedding c) = Inr v \<and> jsGe (Fin 1) v)
            [embOrthogonal, embAligned, embAlignedToo]"
      by (rule all)
  qed
qed

text \<open>
  C8, as the claim states it, fails when a similarity is NaN. The index holds an entry
  of similarity 0, an entry with the zero vector and an entry of similarity 1;
  \<open>findRelevantChunks\<close> returns them in this order, no chunk contains the answer, and
  the evidence chunk is the chunk of the first retrieved entry, of similarity 0, not the
  chunk of the most similar one.
\<close>

theorem evidenceChunk_not_most_similar_counterexample:
  "fst (findRelevantChunks otherEnv readyManager metricE11 [embOrthogonal, embZero, embAligned] 3) =
     Inr [scored embOrthogonal (Fin 0), scored embZero NaN, scored embAligned (Fin 1)] \<and>
   list_all (\<lambda>c. \<not> str_includes (dc_text c) (js ''1250 tonnes'')) [docScope, docWater, docBlank] \<and>
   (\<exists>x. fst (extractMetricValue otherEnv readyManager metricE11
                [scored embOrthogonal (Fin 0), scored embZero NaN, scored embAligned (Fin 1)]
                [docScope, docWater, docBlank]) = Inr x \<and>
        evidenceSpan x = Some (js ''1250 tonnes'') \<and>
        evidenceChunk x = Some docWater) \<and>
   chunkId embOrthogonal = dc_id docWater \<and>
   cosineSimilarity [Fin 1, Fin 0] (embedding embOrthogonal) = Inr (Fin 0) \<and>
   cosineSimilarity [Fin 1, Fin 0] (embedding embAligned) = Inr (Fin 1) \<and>
   \<not> jsGe (Fin 0) (Fin 1)"
proof -
  let ?rel = "[scored embOrthogonal (Fin 0), scored embZero NaN, scored embAligned (Fin 1)]"
  obtain x where x: "extractMetricValue otherEnv readyManager metricE11 ?rel
                       [docScope, docWater, docBlank] = (Inr x, readyManager)"
    and span: "evidenceSpan x = Some (js ''1250 tonnes'')"
    and e: "evidenceChunk x =
              findEvidenceChunk (js ''1250 tonnes'') [docScope, docWater, docBlank] ?rel"
    using extractMetricValue_other [OF context_5, of "[docScope, docWater, docBlank]"]
    by (elim exE conjE) (rule that; assumption)
  have "findEvidenceChunk (js ''1250 tonnes'') [docScope, docWater, docBlank] ?rel = Some docWater"
    by (simp add: findEvidenceChunk_def example_ids no_chunk_contains)
  then have ec: "evidenceChunk x = Some docWater" using e by simp
  show ?thesis
  proof (intro conjI)
    show "\<exists>x. fst (extractMetricValue otherEnv readyManager metricE11 ?rel
                [docScope, docWater, docBlank]) = Inr x \<and>
        evidenceSpan x = Some (js ''1250 tonnes'') \<and>
        evidenceChunk x = Some docWater"
      using x span ec by (intro exI [of _ x]) simp
    show "fst (findRelevantChunks otherEnv readyManager metricE11 [embOrthogonal, embZero, embAligned] 3) =
            Inr ?rel"
      by (simp add: find_5)
    show "list_all (\<lambda>c. \<not> str_includes (dc_text c) (js ''1250 tonnes'')) [docScope, docWater, docBlank]"
      by (simp add: no_chunk_contains)
    show "chunkId embOrthogonal = dc_id docWater" by (simp add: example_ids)
    show "cosineSimilarity [Fin 1, Fin 0] (embedding embOrthogonal) = Inr (Fin 0)"
      by (simp add: embOrthogonal_def cos_orth)
    show "cosineSimilarity [Fin 1, Fin 0] (embedding embAligned) = Inr (Fin 1)"
      by (simp add: embAligned_def cos_aligned)
    show "\<not> jsGe (Fin 0) (Fin 1)" by simp
  qed
qed

section \<open>Zero vectors\<close>

lemma set_insertBy: "set (insertBy cmp x ys) = insert x (set ys)"
  by (induction ys) auto

lemma length_insertBy: "length (insertBy cmp x ys) = Suc (length ys)"
  by (induction ys) auto

lemma set_jsSort: "set (jsSort cmp xs) = set xs"
  by (induction xs) (simp_all add: set_insertBy)

lemma slice_all: "int (length xs) \<le> k \<Longrightarrow> slice xs 0 k = xs"
  by (auto simp: slice_def sliceIndex_def)

lemma scoreChunks_dims:
  assumes "\<forall>c \<in> set chunks. length (embedding c) = length q"
  shows "\<exists>entries. scoreChunks q chunks = Inr entries \<and>
           (\<forall>c \<in> set chunks. \<forall>v. cosineSimilarity q (embedding c) = Inr v \<longrightarrow>
              scored c v \<in> set entries)"
  using assms
proof (induction chunks)
  case Nil
  then show ?case by simp
next
  case (Cons c cs)
  then obtain entries where e: "scoreChunks q cs = Inr entries"
    and m: "\<forall>c \<in> set cs. \<forall>v. cosineSimilarity q (embedding c) = Inr v \<longrightarrow> scored c v \<in> set entries"
    by auto
  have "length q = length (embedding c)" using Cons.prems by simp
  then obtain v where v: "cosineSimilarity q (embedding c) = Inr v"
    using cosineSimilarity_returns by blast
  show ?case using e m v by auto
qed

lemma jsMul_zero:
  "jsMul (Fin 0) y = Fin 0 \<or> jsMul (Fin 0) y = NaN"
  "jsMul y (Fin 0) = Fin 0 \<or> jsMul y (Fin 0) = NaN"
  by (cases y; simp)+

lemma jsAdd_zero:
  assumes "d = Fin 0 \<or> d = NaN" "p = Fin 0 \<or> p = NaN"
  shows "jsAdd d p = Fin 0 \<or> jsAdd d p = NaN"
  using assms by auto

lemma jsDiv_zero:
  assumes "d = Fin 0 \<or> d = NaN" "p = Fin 0 \<or> p = NaN"
  shows "jsDiv d p = NaN"
  using assms by auto

text \<open>The three sums after \<open>k\<close> iterations, when one of the vectors is all zero.\<close>

lemma cosineSums_zero_left:
  assumes "\<forall>x \<in> set a. x = Fin 0" "k \<le> length a"
  shows "\<exists>d nB. foldl (\<lambda>(dotProduct, normA, normB) i.
                       (jsAdd dotProduct (jsMul (a ! i) (b ! i)),
                        jsAdd normA (jsMul (a ! i) (a ! i)),
                        jsAdd normB (jsMul (b ! i) (b ! i))))
                    (Fin 0, Fin 0, Fin 0) [0..<k] = (d, Fin 0, nB) \<and> (d = Fin 0 \<or> d = NaN)"
  using assms(2)
proof (induction k)
  case 0
  then show ?case by simp
next
  case (Suc k)
  then obtain d nB where
    f: "foldl (\<lambda>(dotProduct, normA, normB) i.
                       (jsAdd dotProduct (jsMul (a ! i) (b ! i)),
                        jsAdd normA (jsMul (a ! i) (a ! i)),
                        jsAdd normB (jsMul (b ! i) (b ! i))))
                    (Fin 0, Fin 0, Fin 0) [0..<k] = (d, Fin 0, nB)"
    and d: "d = Fin 0 \<or> d = NaN"
    by auto
  have ak: "a ! k = Fin 0" using assms(1) Suc.prems by (simp add: nth_mem)
  have "jsAdd d (jsMul (Fin 0) (b ! k)) = Fin 0 \<or> jsAdd d (jsMul (Fin 0) (b ! k)) = NaN"
    by (rule jsAdd_zero [OF d jsMul_zero(1)])
  then show ?case by (simp add: f ak)
qed

lemma cosineSums_zero_right:
  assumes "\<forall>x \<in> set b. x = Fin 0" "k \<le> length b"
  shows "\<exists>d nA. foldl (\<lambda>(dotProduct, normA, normB) i.
                       (jsAdd dotProduct (jsMul (a ! i) (b ! i)),
                        jsAdd normA (jsMul (a ! i) (a ! i)),
                        jsAdd normB (jsMul (b ! i) (b ! i))))
                    (Fin 0, Fin 0, Fin 0) [0..<k] = (d, nA, Fin 0) \<and> (d = Fin 0 \<or> d = NaN)"
  using assms(2)
proof (induction k)
  case 0
  then show ?case by simp
next
  case (Suc k)
  then obtain d nA where
    f: "foldl (\<lambda>(dotProduct, normA, normB) i.
                       (jsAdd dotProduct (jsMul (a ! i) (b ! i)),
                        jsAdd normA (jsMul (a ! i) (a ! i)),
                        jsAdd normB (jsMul (b ! i) (b ! i))))
                    (Fin 0, Fin 0, Fin 0) [0..<k] = (d, nA, Fin 0)"
    and d: "d = Fin 0 \<or> d = NaN"
    by auto
  have bk: "b ! k = Fin 0" using assms(1) Suc.prems by (simp add: nth_mem)
  have "jsAdd d (jsMul (a ! k) (Fin 0)) = Fin 0 \<or> jsAdd d (jsMul (a ! k) (Fin 0)) = NaN"
    by (rule jsAdd_zero [OF d jsMul_zero(2)])
  then show ?case by (simp add: f bk)
qed

lemma cosineSimilarity_zero:
  assumes len: "length a = length b"
    and zero: "(\<forall>x \<in> set a. x = Fin 0) \<or> (\<forall>x \<in> set b. x = Fin 0)"
  shows "cosineSimilarity a b = Inr NaN"
  using zero
proof
  assume "\<forall>x \<in> set a. x = Fin 0"
  then obtain d nB where s: "cosineSums a b = (d, Fin 0, nB)" and d: "d = Fin 0 \<or> d = NaN"
    using cosineSums_zero_left [of a "length a" b] unfolding cosineSums_def by auto
  have "jsDiv d (jsMul (Fin 0) (jsSqrt nB)) = NaN"
    by (rule jsDiv_zero [OF d jsMul_zero(1)])
  then show ?thesis using len by (simp add: cosineSimilarity_def s)
next
  assume "\<forall>x \<in> set b. x = Fin 0"
  then obtain d nA where s: "cosineSums a b = (d, nA, Fin 0)" and d: "d = Fin 0 \<or> d = NaN"
    using cosineSums_zero_right [of b "length a" a] len unfolding cosineSums_def by auto
  have "jsDiv d (jsMul (jsSqrt nA) (Fin 0)) = NaN"
    by (rule jsDiv_zero [OF d jsMul_zero(2)])
  then show ?thesis using len by (simp add: cosineSimilarity_def s)
qed

lemma initialize_embeddingModel:
  assumes "initialize ev m = (Inr u, m1)" "isInitialized m \<longrightarrow> embeddingModel m"
  shows "embeddingModel m1"
  using assms by (auto simp: initialize_def Let_def split: if_splits option.splits)

text \<open>
  C10. For two vectors of equal length of which at least one is all zero (the
  components of the other one are any numbers, infinities and NaN included),
  \<open>cosineSimilarity\<close> does not throw and its result is NaN. Such a value reaches the
  ranking: when the query embedding is \<open>a\<close>, an indexed entry \<open>c\<close> has the embedding \<open>b\<close>,
  all indexed embeddings have the length of \<open>a\<close> and \<open>topK\<close> is at least the number of
  entries, \<open>findRelevantChunks\<close> returns a list that contains \<open>c\<close> with similarity NaN.
\<close>

theorem cosineSimilarity_zero_vector:
  assumes len: "length a = length b"
    and zero: "(\<forall>x \<in> set a. x = Fin 0) \<or> (\<forall>x \<in> set b. x = Fin 0)"
  shows "cosineSimilarity a b = Inr NaN \<and>
         (\<forall>ev m metric chunkEmbeddings topK c.
            fst (initialize ev m) = Inr () \<and> (isInitialized m \<longrightarrow> embeddingModel m) \<and>
            runEmbeddingModel ev (searchQuery metric) = Inr a \<and>
            c \<in> set chunkEmbeddings \<and> embedding c = b \<and>
            (\<forall>d \<in> set chunkEmbeddings. length (embedding d) = length a) \<and>
            int (length chunkEmbeddings) \<le> topK \<longrightarrow>
            (\<exists>out. fst (findRelevantChunks ev m metric chunkEmbeddings topK) = Inr out \<and>
                   scored c NaN \<in> set out))"
proof -
  have nan: "cosineSimilarity a b = Inr NaN"
    by (rule cosineSimilarity_zero [OF len zero])
  have flow: "\<exists>out. fst (findRelevantChunks ev m metric chunkEmbeddings topK) = Inr out \<and>
                   scored c NaN \<in> set out"
    if h: "fst (initialize ev m) = Inr () \<and> (isInitialized m \<longrightarrow> embeddingModel m) \<and>
           runEmbeddingModel ev (searchQuery metric) = Inr a \<and>
           c \<in> set chunkEmbeddings \<and> embedding c = b \<and>
           (\<forall>d \<in> set chunkEmbeddings. length (embedding d) = length a) \<and>
           int (length chunkEmbeddings) \<le> topK"
    for ev m metric and chunkEmbeddings :: "EmbeddingResult list" and topK c
  proof -
    obtain m1 where i: "initialize ev m = (Inr (), m1)"
      using h by (cases "initialize ev m") auto
    have em: "embeddingModel m1"
      using initialize_embeddingModel [OF i] h by simp
    have g: "generateEmbedding ev m1 (searchQuery metric) = Inr a"
      using em h by (simp add: generateEmbedding_def)
    obtain entries where e: "scoreChunks a chunkEmbeddings = Inr entries"
      and mem: "\<forall>c \<in> set chunkEmbeddings. \<forall>v. cosineSimilarity a (embedding c) = Inr v \<longrightarrow>
                  scored c v \<in> set entries"
      using scoreChunks_dims [of chunkEmbeddings a] h by auto
    have le: "int (length (jsSort (\<lambda>a b. jsSub (similarity b) (similarity a)) entries)) \<le> topK"
    proof -
      have "length entries = length chunkEmbeddings"
        using scoreChunks_list_all2 [OF e] by (simp add: list_all2_lengthD)
      moreover have "length (jsSort (\<lambda>a b. jsSub (similarity b) (similarity a)) entries) = length entries"
        by (induction entries) (simp_all add: length_insertBy)
      ultimately show ?thesis using h by simp
    qed
    have r: "findRelevantChunks ev m metric chunkEmbeddings topK =
               (Inr (jsSort (\<lambda>a b. jsSub (similarity b) (similarity a)) entries), m1)"
      by (simp add: findRelevantChunks_def i g e slice_all [OF le])
    have "scored c NaN \<in> set entries"
      using mem h nan by auto
    then show ?thesis by (simp add: r set_jsSort)
  qed
  show ?thesis using nan flow by blast
qed

text \<open>The theorem at the query \<open>[1, 0]\<close> and an indexed entry with the vector \<open>[0, 0]\<close>.\<close>

theorem cosineSimilarity_zero_vector_witness:
  "cosineSimilarity [Fin 1, Fin 0] [Fin 0, Fin 0] = Inr NaN \<and>
   (\<exists>out. fst (findRelevantChunks exampleEnv newManager metricE11
                  [embOrthogonal, embZero, embAligned] 3) = Inr out \<and>
          scored embZero NaN \<in> set out)"
proof -
  have l: "length [Fin 1, Fin 0] = length [Fin 0, Fin 0]" by simp
  have z: "(\<forall>x \<in> set [Fin 1, Fin 0]. x = Fin 0) \<or> (\<forall>x \<in> set [Fin 0, Fin 0]. x = Fin 0)" by simp
  note t = cosineSimilarity_zero_vector [OF l z]
  have h: "fst (initialize exampleEnv newManager) = Inr () \<and>
           (isInitialized newManager \<longrightarrow> embeddingModel newManager) \<and>
           runEmbeddingModel exampleEnv (searchQuery metricE11) = Inr [Fin 1, Fin 0] \<and>
           embZero \<in> set [embOrthogonal, embZero, embAligned] \<and> embedding embZero = [Fin 0, Fin 0] \<and>
           (\<forall>d \<in> set [embOrthogonal, embZero, embAligned]. length (embedding d) = length [Fin 1, Fin 0]) \<and>
           int (length [embOrthogonal, embZero, embAligned]) \<le> 3"
    by (simp add: initialize_def newManager_def exampleEnv_def example_embs)
  from t have "cosineSimilarity [Fin 1, Fin 0] [Fin 0, Fin 0] = Inr NaN" by (rule conjunct1)
  moreover from t h have "\<exists>out. fst (findRelevantChunks exampleEnv newManager metricE11
                  [embOrthogonal, embZero, embAligned] 3) = Inr out \<and>
          scored embZero NaN \<in> set out"
    by blast
  ultimately show ?thesis by (rule conjI)
qed

section \<open>Parsing an answer\<close>

lemmas re_eval = ms.simps(5) replaceAllFrom.simps matchAt_def Plus_def lit_def cap_def js_def
  isSpace_def isDigit_def isWord_def isUpper_def isLower_def chrMatches_def canon_def
  chSpace_def chDot_def chNewline_def chComma_def chEuro_def

text \<open>
  C3 at its input. The answer \<open>1,250 tCO2e\<close> is parsed, for every metric, to the value
  \<open>1250\<close> and the units \<open>tCO\<close>: the unit group \<open>[a-zA-Z%]+\<close> stops at the digit of
  \<open>tCO2e\<close>.
\<close>

theorem parseMetricAnswer_scenario_B:
  "parseMetricAnswer (js ''1,250 tCO2e'') metric = (Some (js ''1250''), Some (js ''tCO''))"
proof -
  have 1: "replaceFirst True rePrefix (\<lambda>m caps. []) (js ''1,250 tCO2e'') = js ''1,250 tCO2e''"
    by (simp add: replaceFirst_def rePrefix_def re_eval)
  have 2: "trim (js ''1,250 tCO2e'') = js ''1,250 tCO2e''"
    by (simp add: trim_def re_eval)
  show ?thesis
    unfolding parseMetricAnswer_def Let_def 1 2
    by (simp add: match_def replaceAll_def reNumericUnit_def reNumber_def reComma_def re_eval)
qed

section \<open>Properties of the matcher and of normalizeText\<close>

lemma ms_suffix:
  "(s', caps') \<in> set (ms ic n r (s, caps)) \<Longrightarrow> suffix s' s"
proof (induction ic n r "(s, caps)" arbitrary: s caps s' caps' rule: ms.induct)
  case (1 ic n c s caps)
  then show ?case by (auto split: list.splits if_splits simp: suffix_Cons)
next
  case (2 ic n p s caps)
  then show ?case by (auto split: list.splits if_splits simp: suffix_Cons)
next
  case (3 ic n a b s caps)
  from "3.prems" obtain s1 c1 where a: "(s1, c1) \<in> set (ms ic n a (s, caps))"
    and b: "(s', caps') \<in> set (ms ic n b (s1, c1))" by auto
  have "suffix s1 s" by (rule "3.hyps"(1) [OF a])
  moreover have "suffix s' s1" by (rule "3.hyps"(2) [OF a b])
  ultimately show ?case by (rule suffix_order.trans [rotated])
next
  case (4 ic n a b s caps)
  then show ?case by auto
next
  case (5 ic n a s caps)
  from "5.prems" consider "(s', caps') = (s, caps)"
    | s1 c1 where "(s1, c1) \<in> set (ms ic n a (s, caps))" "length s1 < length s"
        "(s', caps') \<in> set (ms ic n (Star a) (s1, c1))"
    by (auto split: if_splits simp: ms.simps(5))
  then show ?case
  proof cases
    case 1
    then show ?thesis by simp
  next
    case 2
    have "suffix s1 s" by (rule "5.hyps"(1) [OF 2(1)])
    moreover have "suffix s' s1"
      using "5.hyps"(2) [OF 2(1) _ 2(3)] 2(2) by simp
    ultimately show ?thesis by (rule suffix_order.trans [rotated])
  qed
next
  case (6 ic n a s caps)
  then show ?case by auto
next
  case (7 ic n k a s caps)
  then show ?case by auto
next
  case (8 ic n s caps)
  then show ?case by (auto split: if_splits)
next
  case (9 ic n s caps)
  then show ?case by auto
qed

lemma ms_req:
  "req ic p r \<Longrightarrow> (s', caps') \<in> set (ms ic n r (s, caps)) \<Longrightarrow> \<exists>x \<in> set s. p x"
proof (induction ic n r "(s, caps)" arbitrary: s caps s' caps' rule: ms.induct)
  case (1 ic n c s caps)
  then show ?case by (auto split: list.splits if_splits)
next
  case (2 ic n q s caps)
  then show ?case by (auto split: list.splits if_splits)
next
  case (3 ic n a b s caps)
  from "3.prems"(2) obtain s1 c1 where a: "(s1, c1) \<in> set (ms ic n a (s, caps))"
    and b: "(s', caps') \<in> set (ms ic n b (s1, c1))" by auto
  show ?case
  proof (cases "req ic p a")
    case True
    then show ?thesis by (rule "3.hyps"(1) [OF _ a])
  next
    case False
    then have "req ic p b" using "3.prems"(1) by simp
    then have "\<exists>x \<in> set s1. p x" by (rule "3.hyps"(2) [OF a _ b])
    moreover have "set s1 \<subseteq> set s" using ms_suffix [OF a] by (rule set_mono_suffix)
    ultimately show ?thesis by auto
  qed
next
  case (4 ic n a b s caps)
  then show ?case by auto
next
  case (5 ic n a s caps)
  then show ?case by simp
next
  case (6 ic n a s caps)
  then show ?case by simp
next
  case (7 ic n k a s caps)
  then show ?case by auto
next
  case (8 ic n s caps)
  then show ?case by simp
next
  case (9 ic n s caps)
  then show ?case by simp
qed


lemma matchAt_req:
  "req ic p r \<Longrightarrow> \<forall>x \<in> set s. \<not> p x \<Longrightarrow> matchAt ic n r s = None"
proof -
  assume r: "req ic p r" and s: "\<forall>x \<in> set s. \<not> p x"
  have "ms ic n r (s, Map.empty) = []"
  proof (cases "ms ic n r (s, Map.empty)")
    case Nil
    then show ?thesis .
  next
    case (Cons st sts)
    obtain s' c' where "st = (s', c')" by (cases st)
    then have "(s', c') \<in> set (ms ic n r (s, Map.empty))" using Cons by simp
    then show ?thesis using ms_req [OF r] s by blast
  qed
  then show ?thesis by (simp add: matchAt_def)
qed

lemma replaceAllFrom_None:
  "matchAt ic n r s = None \<Longrightarrow>
   replaceAllFrom ic n r f s = (case s of [] \<Rightarrow> [] | c # s' \<Rightarrow> c # replaceAllFrom ic n r f s')"
  by (subst replaceAllFrom.simps) simp



lemma replaceAllFrom_req:
  "req ic p r \<Longrightarrow> \<forall>x \<in> set s. \<not> p x \<Longrightarrow> replaceAllFrom ic n r f s = s"
proof (induction s)
  case Nil
  then show ?case by (simp add: replaceAllFrom_None matchAt_req)
next
  case (Cons c s)
  have "matchAt ic n r (c # s) = None"
    by (rule matchAt_req [OF Cons.prems])
  then show ?case using Cons by (simp add: replaceAllFrom_None)
qed









lemma space_isSpace [simp]: "isSpace chSpace"
  by (simp add: isSpace_def chSpace_def)
















lemma req_rePercent_sign: "req False (\<lambda>c. c = 37) rePercent"
  by (simp add: rePercent_def chrMatches_def)

lemma req_rePercent_digit: "req False isDigit rePercent"
  by (simp add: rePercent_def Plus_def)

























lemma not_digit_simps [simp]:
  "\<not> isDigit chSpace" "\<not> isDigit 37" "\<not> isSpace 37" "\<not> isSpace chDot" "chDot \<noteq> chSpace"
  "chSpace \<noteq> chDot" "chSpace \<noteq> 37"
  by (simp_all add: isDigit_def isSpace_def chSpace_def chDot_def)





lemma pct_Nil [simp]: "pct n [] = []"
  unfolding pct_def by (rule replaceAllFrom_req [OF req_rePercent_digit]) simp





















section \<open>normalizeText on concrete texts\<close>

lemmas norm_eval = ms.simps(5) replaceAllFrom.simps matchAt_def Plus_def lit_def cap_def js_def
  isSpace_def isDigit_def isWord_def isUpper_def isLower_def chrMatches_def canon_def
  chSpace_def chDot_def chNewline_def chComma_def chEuro_def

text \<open>
  C5 at a failing input. Three consecutive line breaks between two letters come out as
  a single space: the second step, \<open>/\s+/g\<close>, has already replaced every run of white
  space, line breaks included, by one space when the third step looks for
  \<open>/\n\s*\n\s*\n/g\<close>, which therefore never matches.
\<close>

theorem normalizeText_three_breaks:
  "normalizeText (js ''a\<newline>\<newline>\<newline>b'') = js ''a b''"
proof -
  have s1: "replaceAll False reHyphen (\<lambda>m caps. cap caps 1 @ cap caps 2) (js ''a\<newline>\<newline>\<newline>b'') =
             js ''a\<newline>\<newline>\<newline>b''"
    by (simp add: replaceAll_def reHyphen_def norm_eval)
  have s2: "replaceAll False reSpaces (\<lambda>m caps. [chSpace]) (js ''a\<newline>\<newline>\<newline>b'') =
             js ''a b''"
    by (simp add: replaceAll_def reSpaces_def norm_eval)
  have s3: "replaceAll False reBreaks (\<lambda>m caps. [chNewline, chNewline]) (js ''a b'') =
             js ''a b''"
    by (simp add: replaceAll_def reBreaks_def norm_eval)
  have s4: "replaceAll True reUnits unitReplacement (js ''a b'') =
             js ''a b''"
    by (simp add: replaceAll_def reUnits_def unitReplacement_def parseInt_def toLowerCase_def showNat.simps norm_eval)
  have s5: "replaceAll False rePercent (\<lambda>m caps. cap caps 1 @ [37]) (js ''a b'') =
             js ''a b''"
    by (simp add: replaceAll_def rePercent_def norm_eval)
  have s6: "replaceAll False reEuroBefore (\<lambda>m caps. [chEuro] @ cap caps 1) (js ''a b'') =
             js ''a b''"
    by (simp add: replaceAll_def reEuroBefore_def reNumber_def norm_eval)
  have s7: "replaceAll False reEuroAfter (\<lambda>m caps. [chEuro] @ cap caps 1) (js ''a b'') =
             js ''a b''"
    by (simp add: replaceAll_def reEuroAfter_def reNumber_def norm_eval)
  have s8: "trim (js ''a b'') = js ''a b''"
    by (simp add: trim_def norm_eval)
  show ?thesis
    by (simp only: normalizeText_def Let_def s1 s2 s3 s4 s5 s6 s7 s8)
qed






end
